theory Spec2Isabelle
  imports Main
begin

section \<open>Instants and the date-fns helpers\<close>

text \<open>
  A JavaScript \<open>Date\<close> is an instant: the integer number of milliseconds since the epoch
  (\<open>Date.getTime()\<close>). Dates are compared numerically. The stored ISO strings
  (\<open>startDateTime\<close>, \<open>endDateTime\<close>, \<open>startTime\<close>, \<open>endTime\<close>) are written by
  \<open>toISOString\<close> and read back by \<open>parseISO\<close>; the model keeps the instant they denote.
\<close>

type_synonym instant = int

text \<open>
  What the functions read from their surroundings: the local time zone (a fixed offset
  from UTC in milliseconds, no daylight-saving change), the clock (\<open>new Date()\<close>) and
  date-fns's \<open>format(d, "yyyy-MM-dd")\<close>, which is taken as it comes.
\<close>

record Runtime =
  tzOffset :: int
  clock :: instant
  format :: "instant \<Rightarrow> string"

definition addMinutes :: "instant \<Rightarrow> int \<Rightarrow> instant" where
  "addMinutes d amount = d + amount * 60000"

definition addDays :: "instant \<Rightarrow> int \<Rightarrow> instant" where
  "addDays d amount = d + amount * 86400000"

definition startOfDay :: "Runtime \<Rightarrow> instant \<Rightarrow> instant" where
  "startOfDay rt d = d - (d + tzOffset rt) mod 86400000"

definition endOfDay :: "Runtime \<Rightarrow> instant \<Rightarrow> instant" where
  "endOfDay rt d = startOfDay rt d + 86399999"

definition isWithinInterval :: "instant \<Rightarrow> instant \<Rightarrow> instant \<Rightarrow> bool" where
  "isWithinInterval d s e = (s \<le> d \<and> d \<le> e)"

section \<open>lib/availability.ts\<close>

text \<open>
  A slot duration is a whole number of minutes, of either sign (the parameter is a
  \<open>number\<close>); the default arguments (30 minutes, no busy times) are written out by the
  caller.
\<close>

record AvailabilitySlot =
  key :: string
  startDateTime :: instant
  endDateTime :: instant

record BookingSlot =
  bookingId :: string
  startTime :: instant
  endTime :: instant

text \<open>\<open>BusyTime\<close> and the returned slots are both \<open>{ start: Date; end: Date }\<close>.\<close>

record TimeSlot =
  start :: instant
  end' :: instant

type_synonym BusyTime = TimeSlot

text \<open>The filter that selects the availability blocks of a day (the same closure in
  \<open>computeAvailableDates\<close>, \<open>computeAvailableSlots\<close> and \<open>getAvailableSlots\<close>).\<close>

definition isForDate :: "instant \<Rightarrow> instant \<Rightarrow> AvailabilitySlot \<Rightarrow> bool" where
  "isForDate dayStart dayEnd slot =
     (let slotStart = startDateTime slot; slotEnd = endDateTime slot in
        isWithinInterval slotStart dayStart dayEnd \<or>
        isWithinInterval slotEnd dayStart dayEnd \<or>
        (slotStart \<le> dayStart \<and> slotEnd \<ge> dayEnd))"

text \<open>\<open>bookings.some(...)\<close> and \<open>busyTimes.some(...)\<close> of the slot loops.\<close>

definition hasBookingConflict :: "'b BookingSlot_scheme list \<Rightarrow> instant \<Rightarrow> instant \<Rightarrow> bool" where
  "hasBookingConflict bookings currentStart currentEnd =
     list_ex (\<lambda>booking. currentStart < endTime booking \<and> currentEnd > startTime booking) bookings"

definition hasBusyConflict :: "BusyTime list \<Rightarrow> instant \<Rightarrow> instant \<Rightarrow> bool" where
  "hasBusyConflict busyTimes currentStart currentEnd =
     list_ex (\<lambda>busy. currentStart < end' busy \<and> currentEnd > start busy) busyTimes"

text \<open>
  The \<open>while\<close> loop of \<open>computeAvailableSlots\<close> (lines 154-184). It runs forever when the
  duration is not positive and the first candidate fits, so it is a partial function:
  \<open>None\<close> is "does not return".
\<close>

partial_function (option) computeAvailableSlots_while ::
  "instant \<Rightarrow> 'b BookingSlot_scheme list \<Rightarrow> BusyTime list \<Rightarrow> int \<Rightarrow> instant \<Rightarrow> instant \<Rightarrow>
   TimeSlot list \<Rightarrow> TimeSlot list option" where
  "computeAvailableSlots_while now bookings busyTimes slotDurationMinutes slotEnd currentStart slots =
     (if addMinutes currentStart slotDurationMinutes \<le> slotEnd then
        (if currentStart < now then
           computeAvailableSlots_while now bookings busyTimes slotDurationMinutes slotEnd
             (addMinutes currentStart slotDurationMinutes) slots
         else if \<not> hasBookingConflict bookings currentStart (addMinutes currentStart slotDurationMinutes)
                 \<and> \<not> hasBusyConflict busyTimes currentStart (addMinutes currentStart slotDurationMinutes) then
           computeAvailableSlots_while now bookings busyTimes slotDurationMinutes slotEnd
             (addMinutes currentStart slotDurationMinutes)
             (slots @ [\<lparr>start = currentStart, end' = addMinutes currentStart slotDurationMinutes\<rparr>])
         else
           computeAvailableSlots_while now bookings busyTimes slotDurationMinutes slotEnd
             (addMinutes currentStart slotDurationMinutes) slots)
      else Some slots)"

text \<open>The \<open>for\<close> loop over the day's availability blocks, clamping each to the day.\<close>

fun computeAvailableSlots_for ::
  "instant \<Rightarrow> 'b BookingSlot_scheme list \<Rightarrow> BusyTime list \<Rightarrow> int \<Rightarrow> instant \<Rightarrow> instant \<Rightarrow>
   AvailabilitySlot list \<Rightarrow> TimeSlot list \<Rightarrow> TimeSlot list option" where
  "computeAvailableSlots_for now bookings busyTimes slotDurationMinutes dayStart dayEnd [] slots =
     Some slots"
| "computeAvailableSlots_for now bookings busyTimes slotDurationMinutes dayStart dayEnd
     (availSlot # rest) slots =
     (let availStart = startDateTime availSlot;
          availEnd = endDateTime availSlot;
          slotStart = (if availStart < dayStart then dayStart else availStart);
          slotEnd = (if availEnd > dayEnd then dayEnd else availEnd)
      in case computeAvailableSlots_while now bookings busyTimes slotDurationMinutes slotEnd
                slotStart slots of
           None \<Rightarrow> None
         | Some slots' \<Rightarrow>
             computeAvailableSlots_for now bookings busyTimes slotDurationMinutes dayStart dayEnd
               rest slots')"

definition computeAvailableSlots ::
  "Runtime \<Rightarrow> AvailabilitySlot list \<Rightarrow> 'b BookingSlot_scheme list \<Rightarrow> instant \<Rightarrow> int \<Rightarrow> BusyTime list \<Rightarrow>
   TimeSlot list option" where
  "computeAvailableSlots rt availability bookings date slotDurationMinutes busyTimes =
     (let dayStart = startOfDay rt date;
          dayEnd = endOfDay rt date;
          now = clock rt;
          availabilityForDate = filter (isForDate dayStart dayEnd) availability
      in computeAvailableSlots_for now bookings busyTimes slotDurationMinutes dayStart dayEnd
           availabilityForDate [])"

text \<open>
  The \<open>while\<close> loop of \<open>checkDayHasAvailableSlot\<close> (lines 219-240): \<open>Some True\<close> is the
  early \<open>return true\<close>, \<open>Some False\<close> is the loop running out.
\<close>

partial_function (option) checkDayHasAvailableSlot_while ::
  "'b BookingSlot_scheme list \<Rightarrow> BusyTime list \<Rightarrow> int \<Rightarrow> instant \<Rightarrow> instant \<Rightarrow> bool option" where
  "checkDayHasAvailableSlot_while bookings busyTimes slotDurationMinutes slotEnd currentStart =
     (if addMinutes currentStart slotDurationMinutes \<le> slotEnd then
        (if \<not> hasBookingConflict bookings currentStart (addMinutes currentStart slotDurationMinutes)
            \<and> \<not> hasBusyConflict busyTimes currentStart (addMinutes currentStart slotDurationMinutes)
         then Some True
         else checkDayHasAvailableSlot_while bookings busyTimes slotDurationMinutes slotEnd
                (addMinutes currentStart slotDurationMinutes))
      else Some False)"

fun checkDayHasAvailableSlot ::
  "AvailabilitySlot list \<Rightarrow> 'b BookingSlot_scheme list \<Rightarrow> instant \<Rightarrow> instant \<Rightarrow> int \<Rightarrow> BusyTime list \<Rightarrow>
   bool option" where
  "checkDayHasAvailableSlot [] bookings dayStart dayEnd slotDurationMinutes busyTimes = Some False"
| "checkDayHasAvailableSlot (availSlot # rest) bookings dayStart dayEnd slotDurationMinutes busyTimes =
     (let availStart = startDateTime availSlot;
          availEnd = endDateTime availSlot;
          slotStart = (if availStart < dayStart then dayStart else availStart);
          slotEnd = (if availEnd > dayEnd then dayEnd else availEnd)
      in case checkDayHasAvailableSlot_while bookings busyTimes slotDurationMinutes slotEnd slotStart of
           None \<Rightarrow> None
         | Some True \<Rightarrow> Some True
         | Some False \<Rightarrow>
             checkDayHasAvailableSlot rest bookings dayStart dayEnd slotDurationMinutes busyTimes)"

text \<open>
  The \<open>while (currentDate <= endDate)\<close> loop of \<open>computeAvailableDates\<close>: each round
  moves \<open>currentDate\<close> one day on, so it ends.
\<close>

function computeAvailableDates_while ::
  "Runtime \<Rightarrow> AvailabilitySlot list \<Rightarrow> 'b BookingSlot_scheme list \<Rightarrow> instant \<Rightarrow> int \<Rightarrow> BusyTime list \<Rightarrow>
   instant \<Rightarrow> instant \<Rightarrow> string list \<Rightarrow> string list option" where
  "computeAvailableDates_while rt availability bookings endDate slotDurationMinutes busyTimes
     today currentDate availableDates =
     (if currentDate \<le> endDate then
        (if currentDate < today then
           computeAvailableDates_while rt availability bookings endDate slotDurationMinutes
             busyTimes today (addDays currentDate 1) availableDates
         else
           (let dayStart = startOfDay rt currentDate;
                dayEnd = endOfDay rt currentDate;
                availabilityForDate = filter (isForDate dayStart dayEnd) availability
            in if length availabilityForDate > 0 then
                 (case checkDayHasAvailableSlot availabilityForDate bookings dayStart dayEnd
                         slotDurationMinutes busyTimes of
                    None \<Rightarrow> None
                  | Some hasAvailableSlot \<Rightarrow>
                      computeAvailableDates_while rt availability bookings endDate
                        slotDurationMinutes busyTimes today (addDays currentDate 1)
                        (if hasAvailableSlot then availableDates @ [format rt currentDate]
                         else availableDates))
               else
                 computeAvailableDates_while rt availability bookings endDate slotDurationMinutes
                   busyTimes today (addDays currentDate 1) availableDates))
      else Some availableDates)"
  by pat_completeness auto
termination
  by (relation "measure (\<lambda>(rt, availability, bookings, endDate, slotDurationMinutes, busyTimes,
        today, currentDate, availableDates). nat (endDate + 1 - currentDate))")
     (auto simp: addDays_def)

definition computeAvailableDates ::
  "Runtime \<Rightarrow> AvailabilitySlot list \<Rightarrow> 'b BookingSlot_scheme list \<Rightarrow> instant \<Rightarrow> instant \<Rightarrow> int \<Rightarrow>
   BusyTime list \<Rightarrow> string list option" where
  "computeAvailableDates rt availability bookings startDate endDate slotDurationMinutes busyTimes =
     computeAvailableDates_while rt availability bookings endDate slotDurationMinutes busyTimes
       (startOfDay rt (clock rt)) (startOfDay rt startDate) []"

section \<open>The booking actions (getAvailableSlots, getAvailableDates, createBooking)\<close>

datatype error =
  HostNotFound | QuotaExceeded | SlotUnavailable | Unauthorized | UserNotFoundInClerk
  | ExternalFailure

datatype AttendeeStatus = accepted | declined | tentative | needsAction

record ConnectedAccount =
  accountKey :: string
  isDefault :: bool
  accessToken :: "string option"
  refreshToken :: "string option"

text \<open>A user document of the store; the host queries project it.\<close>

record User =
  userId :: string
  clerkId :: string
  name :: string
  email :: "string option"
  slug :: "string option"
  availability :: "AvailabilitySlot list option"
  connectedAccounts :: "ConnectedAccount list option"

text \<open>A booking document: the fields \<open>createBooking\<close> writes. It extends \<open>BookingSlot\<close>
  (\<open>_id\<close>, \<open>startTime\<close>, \<open>endTime\<close>), as the fetched documents are passed where a
  \<open>BookingSlot[]\<close> is expected.\<close>

record Booking = BookingSlot +
  host :: string
  meetingType :: "string option"
  guestName :: string
  guestEmail :: "string option"
  googleEventId :: "string option"
  meetLink :: "string option"
  status :: string
  bookingNotes :: "string option"

record MeetingType =
  meetingTypeId :: string
  meetingTypeName :: "string option"

text \<open>The argument of \<open>createBooking\<close>; its \<open>startTime\<close>, \<open>endTime\<close>, \<open>guestName\<close>,
  \<open>guestEmail\<close> and \<open>notes\<close> carry the prefix \<open>data\<close> to keep them apart from the
  fields of the booking document.\<close>

record BookingData =
  hostSlug :: string
  meetingTypeSlug :: "string option"
  dataStartTime :: instant
  dataEndTime :: instant
  dataGuestName :: string
  dataGuestEmail :: string
  dataNotes :: "string option"

record CalendarEvent =
  summary :: string
  description :: "string option"
  eventStart :: instant
  eventEnd :: instant
  attendees :: "string option list"

record EventData =
  eventId :: "string option"
  hangoutLink :: "string option"

text \<open>
  The collaborators, whose code is outside the repository's sources: the store's queries
  (each GROQ query is the function the store computes for it; the booking query is given
  the booking documents, which \<open>createBooking\<close> changes), the id a create assigns, the
  quota check (its \<open>isExceeded\<close> field), and the calendar calls, which can throw
  (\<open>Inl\<close>). A read or a write of the document store itself does not fail in the model.
\<close>

record Services =
  HOST_BY_SLUG_WITH_TOKENS_QUERY :: "string \<Rightarrow> User option"
  BOOKINGS_IN_RANGE_QUERY :: "Booking list \<Rightarrow> string \<Rightarrow> instant \<Rightarrow> instant \<Rightarrow> Booking list"
  MEETING_TYPE_BY_SLUGS_QUERY :: "string \<Rightarrow> string \<Rightarrow> MeetingType option"
  getHostBookingQuotaStatus_isExceeded :: "string \<Rightarrow> bool"
  fetchCalendarEvents :: "ConnectedAccount list \<Rightarrow> instant \<Rightarrow> instant \<Rightarrow> error + BusyTime list"
  getEventAttendeeStatus :: "ConnectedAccount \<Rightarrow> string \<Rightarrow> string option \<Rightarrow> error + AttendeeStatus"
  getCalendarClient :: "ConnectedAccount \<Rightarrow> error + unit"
  events_insert :: "ConnectedAccount \<Rightarrow> CalendarEvent \<Rightarrow> error + EventData"
  newDocumentId :: "nat \<Rightarrow> string"
  randomUUID :: "nat \<Rightarrow> string"

text \<open>JavaScript truthiness of an optional string: \<open>null\<close>, \<open>undefined\<close> and \<open>""\<close> are falsy.\<close>

definition truthy :: "string option \<Rightarrow> bool" where
  "truthy s = (case s of None \<Rightarrow> False | Some v \<Rightarrow> v \<noteq> [])"

text \<open>The string of an optional string that is known to be truthy.\<close>

definition orEmpty :: "string option \<Rightarrow> string" where
  "orEmpty s = (case s of None \<Rightarrow> [] | Some v \<Rightarrow> v)"

text \<open>\<open>host.connectedAccounts?.find((a) => a.isDefault)\<close>.\<close>

definition findDefaultAccount :: "User \<Rightarrow> ConnectedAccount option" where
  "findDefaultAccount h =
     (case connectedAccounts h of None \<Rightarrow> None | Some accounts \<Rightarrow> find isDefault accounts)"

definition hasTokens :: "ConnectedAccount option \<Rightarrow> bool" where
  "hasTokens defaultAccount =
     (case defaultAccount of None \<Rightarrow> False
      | Some a \<Rightarrow> truthy (accessToken a) \<and> truthy (refreshToken a))"

text \<open>
  The body of the \<open>Promise.all\<close> callbacks: whether the booking's id is added to
  \<open>declinedBookingIds\<close>. A status lookup that throws adds nothing.
\<close>

definition addsDeclined :: "Services \<Rightarrow> ConnectedAccount \<Rightarrow> Booking \<Rightarrow> bool" where
  "addsDeclined svc defaultAccount booking =
     (case googleEventId booking of
        None \<Rightarrow> False
      | Some gid \<Rightarrow>
          (if gid = [] then False
           else (case getEventAttendeeStatus svc defaultAccount gid (guestEmail booking) of
                   Inl e \<Rightarrow> False
                 | Inr st \<Rightarrow> st = declined)))"

definition declinedBookingIds :: "Services \<Rightarrow> ConnectedAccount option \<Rightarrow> Booking list \<Rightarrow> string list" where
  "declinedBookingIds svc defaultAccount checked =
     (case defaultAccount of
        None \<Rightarrow> []
      | Some a \<Rightarrow>
          (if hasTokens (Some a) then
             map bookingId
               (filter (addsDeclined svc a)
                  (filter (\<lambda>b. truthy (googleEventId b) \<and> truthy (guestEmail b)) checked))
           else []))"

definition getGoogleBusyTimes ::
  "Services \<Rightarrow> ConnectedAccount list option \<Rightarrow> instant \<Rightarrow> instant \<Rightarrow> error + BusyTime list" where
  "getGoogleBusyTimes svc accounts startDate endDate =
     (case fetchCalendarEvents svc (case accounts of None \<Rightarrow> [] | Some a \<Rightarrow> a) startDate endDate of
        Inl e \<Rightarrow> Inl e
      | Inr events \<Rightarrow> Inr (map (\<lambda>event. \<lparr>start = start event, end' = end' event\<rparr>) events))"

text \<open>The slot-generating \<open>while\<close> loop of \<open>getAvailableSlots\<close> (lines 153-158).\<close>

partial_function (option) getAvailableSlots_while ::
  "int \<Rightarrow> instant \<Rightarrow> instant \<Rightarrow> TimeSlot list \<Rightarrow> TimeSlot list option" where
  "getAvailableSlots_while slotDurationMinutes slotEnd currentStart allSlots =
     (if addMinutes currentStart slotDurationMinutes \<le> slotEnd then
        getAvailableSlots_while slotDurationMinutes slotEnd
          (addMinutes currentStart slotDurationMinutes)
          (allSlots @ [\<lparr>start = currentStart, end' = addMinutes currentStart slotDurationMinutes\<rparr>])
      else Some allSlots)"

fun getAvailableSlots_for ::
  "int \<Rightarrow> instant \<Rightarrow> instant \<Rightarrow> AvailabilitySlot list \<Rightarrow> TimeSlot list \<Rightarrow> TimeSlot list option" where
  "getAvailableSlots_for slotDurationMinutes dayStart dayEnd [] allSlots = Some allSlots"
| "getAvailableSlots_for slotDurationMinutes dayStart dayEnd (availSlot # rest) allSlots =
     (let availStart = startDateTime availSlot;
          availEnd = endDateTime availSlot;
          slotStart = (if availStart < dayStart then dayStart else availStart);
          slotEnd = (if availEnd > dayEnd then dayEnd else availEnd)
      in case getAvailableSlots_while slotDurationMinutes slotEnd slotStart allSlots of
           None \<Rightarrow> None
         | Some allSlots' \<Rightarrow>
             getAvailableSlots_for slotDurationMinutes dayStart dayEnd rest allSlots')"

text \<open>Steps 3 and 4 of \<open>getAvailableSlots\<close>: the day's bookings without the declined ones.\<close>

definition getAvailableSlots_activeBookings ::
  "Services \<Rightarrow> Booking list \<Rightarrow> User \<Rightarrow> instant \<Rightarrow> instant \<Rightarrow> Booking list" where
  "getAvailableSlots_activeBookings svc store h dayStart dayEnd =
     (let existingBookings = BOOKINGS_IN_RANGE_QUERY svc store (userId h) dayStart dayEnd;
          defaultAccount = findDefaultAccount h;
          declinedIds = declinedBookingIds svc defaultAccount existingBookings
      in filter (\<lambda>b. bookingId b \<notin> set declinedIds) existingBookings)"

text \<open>
  \<open>getAvailableSlots\<close>. The result is \<open>None\<close> when the generating loop does not return,
  \<open>Some (Inl e)\<close> when the action throws, \<open>Some (Inr slots)\<close> when it returns.
\<close>

definition getAvailableSlots ::
  "Runtime \<Rightarrow> Services \<Rightarrow> Booking list \<Rightarrow> string \<Rightarrow> instant \<Rightarrow> int \<Rightarrow> (error + TimeSlot list) option" where
  "getAvailableSlots rt svc store hostSlug' date slotDurationMinutes =
     (case HOST_BY_SLUG_WITH_TOKENS_QUERY svc hostSlug' of
        None \<Rightarrow> Some (Inl HostNotFound)
      | Some h \<Rightarrow>
          (let dayStart = startOfDay rt date;
               dayEnd = endOfDay rt date;
               availabilityForDate =
                 filter (isForDate dayStart dayEnd)
                   (case availability h of None \<Rightarrow> [] | Some a \<Rightarrow> a)
           in if length availabilityForDate = 0 then Some (Inr [])
              else
                (let activeBookings = getAvailableSlots_activeBookings svc store h dayStart dayEnd
                 in case getGoogleBusyTimes svc (connectedAccounts h) dayStart dayEnd of
                      Inl e \<Rightarrow> Some (Inl e)
                    | Inr busyTimes \<Rightarrow>
                        (case getAvailableSlots_for slotDurationMinutes dayStart dayEnd
                                availabilityForDate [] of
                           None \<Rightarrow> None
                         | Some allSlots \<Rightarrow>
                             Some (Inr (filter
                               (\<lambda>slot. \<not> hasBookingConflict activeBookings (start slot) (end' slot)
                                      \<and> \<not> hasBusyConflict busyTimes (start slot) (end' slot))
                               allSlots))))))"

definition getAvailableDates ::
  "Runtime \<Rightarrow> Services \<Rightarrow> Booking list \<Rightarrow> string \<Rightarrow> instant \<Rightarrow> instant \<Rightarrow> int \<Rightarrow>
   (error + string list) option" where
  "getAvailableDates rt svc store hostSlug' startDate endDate slotDurationMinutes =
     (case HOST_BY_SLUG_WITH_TOKENS_QUERY svc hostSlug' of
        None \<Rightarrow> Some (Inr [])
      | Some h \<Rightarrow>
          (let existingBookings = BOOKINGS_IN_RANGE_QUERY svc store (userId h) startDate endDate;
               busyTimes =
                 (case getGoogleBusyTimes svc (connectedAccounts h) startDate endDate of
                    Inl e \<Rightarrow> []
                  | Inr b \<Rightarrow> b)
           in map_option Inr
                (computeAvailableDates rt (case availability h of None \<Rightarrow> [] | Some a \<Rightarrow> a)
                   existingBookings startDate endDate slotDurationMinutes busyTimes)))"

text \<open>The ids \<open>checkSlotAvailable\<close> collects in \<open>declinedBookingIds\<close>: among the fetched
  bookings that overlap the window, those whose guest has declined.\<close>

definition checkSlotAvailable_declinedIds ::
  "Services \<Rightarrow> Booking list \<Rightarrow> User \<Rightarrow> instant \<Rightarrow> instant \<Rightarrow> string list" where
  "checkSlotAvailable_declinedIds svc store h startTime' endTime' =
     (let existingBookings = BOOKINGS_IN_RANGE_QUERY svc store (userId h) startTime' endTime';
          defaultAccount = findDefaultAccount h;
          overlappingBookings =
            filter (\<lambda>booking. startTime' < endTime booking \<and> endTime' > startTime booking)
              existingBookings
      in declinedBookingIds svc defaultAccount overlappingBookings)"

definition checkSlotAvailable :: "Services \<Rightarrow> Booking list \<Rightarrow> User \<Rightarrow> instant \<Rightarrow> instant \<Rightarrow> bool" where
  "checkSlotAvailable svc store h startTime' endTime' =
     (let existingBookings = BOOKINGS_IN_RANGE_QUERY svc store (userId h) startTime' endTime';
          declinedIds = checkSlotAvailable_declinedIds svc store h startTime' endTime'
      in \<not> list_ex
             (\<lambda>booking. if bookingId booking \<in> set declinedIds then False
                        else startTime' < endTime booking \<and> endTime' > startTime booking)
             existingBookings)"

text \<open>Step 3 of \<open>createBooking\<close>: the meeting type, when a slug is given and the type exists.\<close>

definition createBooking_meetingType :: "Services \<Rightarrow> BookingData \<Rightarrow> MeetingType option" where
  "createBooking_meetingType svc data =
     (case meetingTypeSlug data of
        None \<Rightarrow> None
      | Some s \<Rightarrow>
          (if s = [] then None
           else MEETING_TYPE_BY_SLUGS_QUERY svc (hostSlug data) s))"

text \<open>The \<open>requestBody\<close> of the calendar insert (summary, description, start, end and
  attendees; the conference request carries a random token and is left out).\<close>

definition createBooking_requestBody ::
  "User \<Rightarrow> BookingData \<Rightarrow> string option \<Rightarrow> CalendarEvent" where
  "createBooking_requestBody h data meetingTypeName' =
     \<lparr>summary =
        (if truthy meetingTypeName'
         then orEmpty meetingTypeName' @ '': '' @ name h @ '' x '' @ dataGuestName data
         else ''Meeting: '' @ name h @ '' x '' @ dataGuestName data),
      description = (if truthy (dataNotes data) then dataNotes data else None),
      eventStart = dataStartTime data,
      eventEnd = dataEndTime data,
      attendees = [email h, Some (dataGuestEmail data)]\<rparr>"

text \<open>Steps 5 and 6 of \<open>createBooking\<close>: the calendar event, inside \<open>try\<close>/\<open>catch\<close>.\<close>

definition createCalendarEvent ::
  "Services \<Rightarrow> User \<Rightarrow> BookingData \<Rightarrow> string option \<Rightarrow> string option \<times> string option" where
  "createCalendarEvent svc h data meetingTypeName' =
     (case findDefaultAccount h of
        None \<Rightarrow> (None, None)
      | Some a \<Rightarrow>
          (if hasTokens (Some a) then
             (case getCalendarClient svc a of
                Inl e \<Rightarrow> (None, None)
              | Inr calendar \<Rightarrow>
                  (case events_insert svc a (createBooking_requestBody h data meetingTypeName') of
                     Inl e \<Rightarrow> (None, None)
                   | Inr event \<Rightarrow> (eventId event, hangoutLink event)))
           else (None, None)))"

text \<open>\<open>createBooking\<close>: what the call gives (the error thrown, or the new id) and the
  booking documents after it. \<open>writeClient.create\<close> is the only write.\<close>

definition createBooking ::
  "Services \<Rightarrow> Booking list \<Rightarrow> BookingData \<Rightarrow> (error + string) \<times> Booking list" where
  "createBooking svc store data =
     (case HOST_BY_SLUG_WITH_TOKENS_QUERY svc (hostSlug data) of
        None \<Rightarrow> (Inl HostNotFound, store)
      | Some h \<Rightarrow>
          (if getHostBookingQuotaStatus_isExceeded svc (hostSlug data) then (Inl QuotaExceeded, store)
           else
             (let meetingType' = createBooking_meetingType svc data;
                  meetingTypeId' = map_option meetingTypeId meetingType';
                  meetingTypeName' = Option.bind meetingType' meetingTypeName
              in if \<not> checkSlotAvailable svc store h (dataStartTime data) (dataEndTime data)
                 then (Inl SlotUnavailable, store)
                 else
                   (let (googleEventId', meetLink') = createCalendarEvent svc h data meetingTypeName';
                        booking =
                          \<lparr>bookingId = newDocumentId svc (length store),
                           startTime = dataStartTime data,
                           endTime = dataEndTime data,
                           host = userId h,
                           meetingType = (if truthy meetingTypeId' then meetingTypeId' else None),
                           guestName = dataGuestName data,
                           guestEmail = Some (dataGuestEmail data),
                           googleEventId = googleEventId',
                           meetLink = meetLink',
                           status = ''confirmed'',
                           bookingNotes = dataNotes data\<rparr>
                    in (Inr (bookingId booking), store @ [booking])))))"

section \<open>lib/actions/availability.ts (getOrCreateUser, saveAvailability)\<close>

record ClerkUser =
  firstName :: "string option"
  lastName :: "string option"
  username :: "string option"
  emailAddresses :: "string list"

text \<open>The identity collaborator: what \<open>auth()\<close> and \<open>currentUser()\<close> give.\<close>

record Identity =
  auth_userId :: "string option"
  currentUser :: "ClerkUser option"

record TimeBlock =
  blockId :: string
  blockStart :: instant
  blockEnd :: instant

record SavedBlock =
  savedId :: string
  savedStart :: instant
  savedEnd :: instant

text \<open>
  Modelled from the spec: the query constant \<open>USER_ID_BY_CLERK_ID_QUERY\<close> is not among
  the sources. The store's interface has "fetch host by slug/external-identity-id": the
  user document with the given Clerk id, projected to its \<open>_id\<close>.
\<close>

definition USER_ID_BY_CLERK_ID_QUERY :: "User list \<Rightarrow> string \<Rightarrow> string option" where
  "USER_ID_BY_CLERK_ID_QUERY users clerkId' =
     map_option userId (find (\<lambda>u. clerkId u = clerkId') users)"

definition getOrCreateUser ::
  "Identity \<Rightarrow> Services \<Rightarrow> User list \<Rightarrow> string \<Rightarrow> (error + string) \<times> User list" where
  "getOrCreateUser idn svc users clerkId' =
     (case USER_ID_BY_CLERK_ID_QUERY users clerkId' of
        Some existingUser \<Rightarrow> (Inr existingUser, users)
      | None \<Rightarrow>
          (case currentUser idn of
             None \<Rightarrow> (Inl UserNotFoundInClerk, users)
           | Some clerkUser \<Rightarrow>
               (let newUser =
                      \<lparr>userId = newDocumentId svc (length users),
                       clerkId = clerkId',
                       name =
                         (if truthy (firstName clerkUser) \<and> truthy (lastName clerkUser)
                          then orEmpty (firstName clerkUser) @ '' '' @ orEmpty (lastName clerkUser)
                          else if truthy (username clerkUser) then orEmpty (username clerkUser)
                          else ''User''),
                       email = (case emailAddresses clerkUser of [] \<Rightarrow> None | e # es \<Rightarrow> Some e),
                       slug = None,
                       availability = Some [],
                       connectedAccounts = None\<rparr>
                in (Inr (userId newUser), users @ [newUser]))))"

text \<open>\<open>writeClient.patch(id).set({ availability: blocks }).commit()\<close>.\<close>

definition patchAvailability :: "User list \<Rightarrow> string \<Rightarrow> AvailabilitySlot list \<Rightarrow> User list" where
  "patchAvailability users docId blocks =
     map (\<lambda>u. if userId u = docId then u\<lparr>availability := Some blocks\<rparr> else u) users"

definition saveAvailability ::
  "Identity \<Rightarrow> Services \<Rightarrow> User list \<Rightarrow> TimeBlock list \<Rightarrow> (error + SavedBlock list) \<times> User list" where
  "saveAvailability idn svc users blocks =
     (if \<not> truthy (auth_userId idn) then (Inl Unauthorized, users)
      else
        (case getOrCreateUser idn svc users (orEmpty (auth_userId idn)) of
           (Inl e, users') \<Rightarrow> (Inl e, users')
         | (Inr docId, users') \<Rightarrow>
             (let sanityBlocks =
                    map (\<lambda>(i, block).
                           \<lparr>key = randomUUID svc i,
                            startDateTime = blockStart block,
                            endDateTime = blockEnd block\<rparr>)
                      (enumerate 0 blocks)
              in (Inr (map (\<lambda>block.
                              \<lparr>savedId = key block,
                               savedStart = startDateTime block,
                               savedEnd = endDateTime block\<rparr>)
                         sanityBlocks),
                  patchAvailability users' docId sanityBlocks))))"

section \<open>Notions the properties are stated with\<close>

text \<open>The spec's overlap predicate (section 4.1): half-open, touching ends do not overlap.\<close>

definition overlaps :: "TimeSlot \<Rightarrow> TimeSlot \<Rightarrow> bool" where
  "overlaps a b = (start a < end' b \<and> end' a > start b)"

definition bookingInterval :: "'b BookingSlot_scheme \<Rightarrow> TimeSlot" where
  "bookingInterval b = \<lparr>start = startTime b, end' = endTime b\<rparr>"

text \<open>
  Modelled from the spec: the query constant \<open>BOOKINGS_IN_RANGE_QUERY\<close> is not among the
  sources. The store's interface has "fetch bookings overlapping a time range for a
  host": the booking documents of the host whose interval overlaps the range. A theorem
  that speaks of the bookings existing in the store assumes that the store answers with
  this query; the other theorems hold for every query.
\<close>

definition bookingsInRange :: "Booking list \<Rightarrow> string \<Rightarrow> instant \<Rightarrow> instant \<Rightarrow> Booking list" where
  "bookingsInRange store hostId startDate endDate =
     filter (\<lambda>b. host b = hostId \<and> startTime b < endDate \<and> endTime b > startDate) store"

text \<open>
  Attendee-declined (section 4.4 of the spec): the booking has an external event, and the
  status lookup on the host's default account gives the guest as declined.
\<close>

definition attendeeDeclined :: "Services \<Rightarrow> User \<Rightarrow> Booking \<Rightarrow> bool" where
  "attendeeDeclined svc h b =
     (case findDefaultAccount h of
        None \<Rightarrow> False
      | Some a \<Rightarrow>
          (case googleEventId b of
             None \<Rightarrow> False
           | Some gid \<Rightarrow> getEventAttendeeStatus svc a gid (guestEmail b) = Inr declined))"

text \<open>An availability block clamped to the day, as the slot loops clamp it.\<close>

definition clampedStart :: "instant \<Rightarrow> AvailabilitySlot \<Rightarrow> instant" where
  "clampedStart dayStart availSlot =
     (if startDateTime availSlot < dayStart then dayStart else startDateTime availSlot)"

definition clampedEnd :: "instant \<Rightarrow> AvailabilitySlot \<Rightarrow> instant" where
  "clampedEnd dayEnd availSlot =
     (if endDateTime availSlot > dayEnd then dayEnd else endDateTime availSlot)"

text \<open>
  The candidate slots of one clamped block when the duration is positive: a total
  function, which the generating loops are shown to compute.
\<close>

function candidates :: "int \<Rightarrow> instant \<Rightarrow> instant \<Rightarrow> TimeSlot list" where
  "candidates slotDurationMinutes slotEnd currentStart =
     (if 0 < slotDurationMinutes \<and> addMinutes currentStart slotDurationMinutes \<le> slotEnd then
        \<lparr>start = currentStart, end' = addMinutes currentStart slotDurationMinutes\<rparr>
          # candidates slotDurationMinutes slotEnd (addMinutes currentStart slotDurationMinutes)
      else [])"
  by pat_completeness auto
termination
  by (relation "measure (\<lambda>(d, e, c). nat (e - c))") (auto simp: addMinutes_def)

text \<open>The slots \<open>computeAvailableSlots\<close> keeps: not in the past, no booking, no busy time.\<close>

definition keeps :: "instant \<Rightarrow> 'b BookingSlot_scheme list \<Rightarrow> BusyTime list \<Rightarrow> TimeSlot \<Rightarrow> bool" where
  "keeps now bookings busyTimes =
     (\<lambda>s. \<not> start s < now \<and> \<not> hasBookingConflict bookings (start s) (end' s)
          \<and> \<not> hasBusyConflict busyTimes (start s) (end' s))"

text \<open>Availability blocks stored in chronological order, none reaching into the next.\<close>

definition windowsChronological :: "AvailabilitySlot list \<Rightarrow> bool" where
  "windowsChronological ws = sorted_wrt (\<lambda>a b. endDateTime a \<le> startDateTime b) ws"

section \<open>Example data\<close>

text \<open>UTC, the clock at the given instant, and a format for the one day of the examples
  (1 January 1970: instants 0 to 86399999; 09:00 is 32400000, 10:00 is 36000000).\<close>

definition exampleRuntime :: "instant \<Rightarrow> Runtime" where
  "exampleRuntime now = \<lparr>tzOffset = 0, clock = now, format = (\<lambda>d. ''1970-01-01'')\<rparr>"

definition exampleAccount :: ConnectedAccount where
  "exampleAccount =
     \<lparr>accountKey = ''acc-1'', isDefault = True,
      accessToken = Some ''token'', refreshToken = Some ''refresh''\<rparr>"

definition exampleHost :: "AvailabilitySlot list \<Rightarrow> User" where
  "exampleHost windows =
     \<lparr>userId = ''user-1'', clerkId = ''clerk-1'', name = ''Ada'',
      email = Some ''ada@example.org'', slug = Some ''ada'',
      availability = Some windows, connectedAccounts = Some [exampleAccount]\<rparr>"

definition exampleServices :: "User option \<Rightarrow> Services" where
  "exampleServices h =
     \<lparr>HOST_BY_SLUG_WITH_TOKENS_QUERY = (\<lambda>s. if s = ''ada'' then h else None),
      BOOKINGS_IN_RANGE_QUERY = bookingsInRange,
      MEETING_TYPE_BY_SLUGS_QUERY = (\<lambda>hs ms. None),
      getHostBookingQuotaStatus_isExceeded = (\<lambda>hs. False),
      fetchCalendarEvents = (\<lambda>accounts s e. Inr []),
      getEventAttendeeStatus = (\<lambda>a gid mail. Inr accepted),
      getCalendarClient = (\<lambda>a. Inr ()),
      events_insert = (\<lambda>a ev. Inr \<lparr>eventId = Some ''event-1'', hangoutLink = Some ''meet-1''\<rparr>),
      newDocumentId = (\<lambda>n. ''doc-'' @ replicate n (CHR ''i'')),
      randomUUID = (\<lambda>n. ''key-'' @ replicate n (CHR ''i''))\<rparr>"

definition window_9_to_10 :: AvailabilitySlot where
  "window_9_to_10 = \<lparr>key = ''w1'', startDateTime = 32400000, endDateTime = 36000000\<rparr>"

definition window_14_to_15 :: AvailabilitySlot where
  "window_14_to_15 = \<lparr>key = ''w2'', startDateTime = 50400000, endDateTime = 54000000\<rparr>"

definition exampleBooking :: "instant \<Rightarrow> instant \<Rightarrow> Booking" where
  "exampleBooking s e =
     \<lparr>bookingId = ''booking-1'', startTime = s, endTime = e, host = ''user-1'',
      meetingType = None, guestName = ''Bob'', guestEmail = Some ''bob@example.org'',
      googleEventId = None, meetLink = None, status = ''confirmed'', bookingNotes = None\<rparr>"

definition exampleData :: "instant \<Rightarrow> instant \<Rightarrow> BookingData" where
  "exampleData s e =
     \<lparr>hostSlug = ''ada'', meetingTypeSlug = None, dataStartTime = s, dataEndTime = e,
      dataGuestName = ''Cy'', dataGuestEmail = ''cy@example.org'', dataNotes = None\<rparr>"

section \<open>Properties\<close>

declare candidates.simps [simp del]

declare computeAvailableDates_while.simps [simp del]

subsection \<open>The generating loops compute the candidates\<close>

lemma addMinutes_step_le:
  "d \<le> 0 \<Longrightarrow> addMinutes c d \<le> e \<Longrightarrow> addMinutes (addMinutes c d) d \<le> e"
  unfolding addMinutes_def by linarith

lemma computeAvailableSlots_while_pos:
  "0 < d \<Longrightarrow> computeAvailableSlots_while now bk bz d e c acc
     = Some (acc @ filter (keeps now bk bz) (candidates d e c))"
proof (induction d e c arbitrary: acc rule: candidates.induct)
  case (1 d e c)
  show ?case
  proof (cases "addMinutes c d \<le> e")
    case True
    with 1 show ?thesis
      by (subst computeAvailableSlots_while.simps, subst candidates.simps)
         (simp add: keeps_def)
  next
    case False
    then show ?thesis
      by (subst computeAvailableSlots_while.simps, subst candidates.simps) simp
  qed
qed

lemma computeAvailableSlots_while_returns_guard:
  assumes "computeAvailableSlots_while now bk bz d e c acc = Some res"
  shows "d \<le> 0 \<longrightarrow> \<not> addMinutes c d \<le> e"
proof (rule computeAvailableSlots_while.raw_induct
    [where P = "\<lambda>now bk bz d e c acc res. d \<le> 0 \<longrightarrow> \<not> addMinutes c d \<le> e", OF _ assms])
  fix f :: "int \<Rightarrow> 'a BookingSlot_scheme list \<Rightarrow> TimeSlot list \<Rightarrow> int \<Rightarrow> int \<Rightarrow> int \<Rightarrow> TimeSlot list \<Rightarrow> TimeSlot list option"
  fix now bk bz d e c acc res
  assume IH: "\<And>now bk bz d e c acc res. f now bk bz d e c acc = Some res
                 \<Longrightarrow> d \<le> 0 \<longrightarrow> \<not> addMinutes c d \<le> e"
    and step: "(if addMinutes c d \<le> e then
        (if c < now then f now bk bz d e (addMinutes c d) acc
         else if \<not> hasBookingConflict bk c (addMinutes c d)
                 \<and> \<not> hasBusyConflict bz c (addMinutes c d) then
           f now bk bz d e (addMinutes c d)
             (acc @ [\<lparr>start = c, end' = addMinutes c d\<rparr>])
         else f now bk bz d e (addMinutes c d) acc)
      else Some acc) = Some res"
  show "d \<le> 0 \<longrightarrow> \<not> addMinutes c d \<le> e"
  proof (intro impI notI)
    assume dd: "d \<le> 0" and le: "addMinutes c d \<le> e"
    have le': "addMinutes (addMinutes c d) d \<le> e" using dd le by (rule addMinutes_step_le)
    from step le have "\<exists>acc'. f now bk bz d e (addMinutes c d) acc' = Some res"
      by (simp split: if_splits) blast+
    then obtain acc' where "f now bk bz d e (addMinutes c d) acc' = Some res" ..
    from IH[OF this] dd le' show False by simp
  qed
qed

lemma computeAvailableSlots_while_nonpos:
  assumes r: "computeAvailableSlots_while now bk bz d e c acc = Some res" and d: "d \<le> 0"
  shows "res = acc"
proof -
  from computeAvailableSlots_while_returns_guard[OF r] d have "\<not> addMinutes c d \<le> e" by simp
  with r show ?thesis by (subst (asm) computeAvailableSlots_while.simps) simp
qed

lemma getAvailableSlots_while_pos:
  "0 < d \<Longrightarrow> getAvailableSlots_while d e c acc = Some (acc @ candidates d e c)"
proof (induction d e c arbitrary: acc rule: candidates.induct)
  case (1 d e c)
  show ?case
  proof (cases "addMinutes c d \<le> e")
    case True
    with 1 show ?thesis
      by (subst getAvailableSlots_while.simps, subst candidates.simps) simp
  next
    case False
    then show ?thesis
      by (subst getAvailableSlots_while.simps, subst candidates.simps) simp
  qed
qed

lemma getAvailableSlots_while_returns_guard:
  assumes "getAvailableSlots_while d e c acc = Some res"
  shows "d \<le> 0 \<longrightarrow> \<not> addMinutes c d \<le> e"
proof (rule getAvailableSlots_while.raw_induct
    [where P = "\<lambda>d e c acc res. d \<le> 0 \<longrightarrow> \<not> addMinutes c d \<le> e", OF _ assms])
  fix f :: "int \<Rightarrow> int \<Rightarrow> int \<Rightarrow> TimeSlot list \<Rightarrow> TimeSlot list option"
  fix d e c acc res
  assume IH: "\<And>d e c acc res. f d e c acc = Some res \<Longrightarrow> d \<le> 0 \<longrightarrow> \<not> addMinutes c d \<le> e"
    and step: "(if addMinutes c d \<le> e then
        f d e (addMinutes c d) (acc @ [\<lparr>start = c, end' = addMinutes c d\<rparr>])
      else Some acc) = Some res"
  show "d \<le> 0 \<longrightarrow> \<not> addMinutes c d \<le> e"
  proof (intro impI notI)
    assume dd: "d \<le> 0" and le: "addMinutes c d \<le> e"
    have le': "addMinutes (addMinutes c d) d \<le> e" using dd le by (rule addMinutes_step_le)
    from step le
    have "f d e (addMinutes c d) (acc @ [\<lparr>start = c, end' = addMinutes c d\<rparr>]) = Some res"
      by simp
    from IH[OF this] dd le' show False by simp
  qed
qed

lemma getAvailableSlots_while_nonpos:
  assumes r: "getAvailableSlots_while d e c acc = Some res" and d: "d \<le> 0"
  shows "res = acc"
proof -
  from getAvailableSlots_while_returns_guard[OF r] d have "\<not> addMinutes c d \<le> e" by simp
  with r show ?thesis by (subst (asm) getAvailableSlots_while.simps) simp
qed

text \<open>A non-positive duration with a candidate that fits: the loop does not return.\<close>

lemma getAvailableSlots_while_diverges:
  "d \<le> 0 \<Longrightarrow> addMinutes c d \<le> e \<Longrightarrow> getAvailableSlots_while d e c acc = None"
  using getAvailableSlots_while_returns_guard[of d e c acc] by (cases "getAvailableSlots_while d e c acc") auto

subsection \<open>The loops over the blocks\<close>

lemma computeAvailableSlots_for_pos:
  "0 < d \<Longrightarrow> computeAvailableSlots_for now bk bz d ds de ws acc
     = Some (acc @ concat (map (\<lambda>w. filter (keeps now bk bz)
                                 (candidates d (clampedEnd de w) (clampedStart ds w))) ws))"
  by (induction ws arbitrary: acc)
     (simp_all add: computeAvailableSlots_while_pos clampedStart_def clampedEnd_def Let_def)

lemma computeAvailableSlots_for_nonpos:
  "computeAvailableSlots_for now bk bz d ds de ws acc = Some res \<Longrightarrow> d \<le> 0 \<Longrightarrow> res = acc"
proof (induction ws arbitrary: acc)
  case Nil
  then show ?case by simp
next
  case (Cons w ws)
  then show ?case
    by (auto simp: Let_def split: option.splits dest!: computeAvailableSlots_while_nonpos)
qed

lemma getAvailableSlots_for_pos:
  "0 < d \<Longrightarrow> getAvailableSlots_for d ds de ws acc
     = Some (acc @ concat (map (\<lambda>w. candidates d (clampedEnd de w) (clampedStart ds w)) ws))"
  by (induction ws arbitrary: acc)
     (simp_all add: getAvailableSlots_while_pos clampedStart_def clampedEnd_def Let_def)

lemma getAvailableSlots_for_nonpos:
  "getAvailableSlots_for d ds de ws acc = Some res \<Longrightarrow> d \<le> 0 \<Longrightarrow> res = acc"
proof (induction ws arbitrary: acc)
  case Nil
  then show ?case by simp
next
  case (Cons w ws)
  then show ?case
    by (auto simp: Let_def split: option.splits dest!: getAvailableSlots_while_nonpos)
qed

subsection \<open>The candidates\<close>

lemma candidates_aligned:
  "s \<in> set (candidates d e c) \<Longrightarrow>
     end' s = addMinutes (start s) d \<and> end' s \<le> e \<and> c \<le> start s \<and> 0 < d
     \<and> (\<exists>k::nat. start s = addMinutes c (int k * d))"
proof (induction d e c rule: candidates.induct)
  case (1 d e c)
  show ?case
  proof (cases "0 < d \<and> addMinutes c d \<le> e")
    case False
    with 1(2) show ?thesis by (subst (asm) candidates.simps) simp
  next
    case True
    from 1(2) True
    consider "s = \<lparr>start = c, end' = addMinutes c d\<rparr>" | "s \<in> set (candidates d e (addMinutes c d))"
      by (subst (asm) candidates.simps) auto
    then show ?thesis
    proof cases
      case 1
      have "start s = addMinutes c (int 0 * d)" using 1 by (simp add: addMinutes_def)
      then have "\<exists>k::nat. start s = addMinutes c (int k * d)" ..
      with 1 True show ?thesis by simp
    next
      case 2
      from "1.IH"[OF True 2] obtain k :: nat where
        a: "end' s = addMinutes (start s) d" "end' s \<le> e" "addMinutes c d \<le> start s"
        and k: "start s = addMinutes (addMinutes c d) (int k * d)" by blast
      have "start s = addMinutes c (int (Suc k) * d)" using k
        by (simp add: addMinutes_def algebra_simps)
      then have "\<exists>k::nat. start s = addMinutes c (int k * d)" ..
      moreover have "c \<le> start s" using a(3) True by (simp add: addMinutes_def)
      ultimately show ?thesis using a True by simp
    qed
  qed
qed

lemma candidates_sorted:
  "sorted_wrt (\<lambda>a b. start a < start b) (candidates d e c)"
proof (induction d e c rule: candidates.induct)
  case (1 d e c)
  show ?case
  proof (cases "0 < d \<and> addMinutes c d \<le> e")
    case False
    then show ?thesis by (subst candidates.simps) auto
  next
    case True
    have "\<forall>s \<in> set (candidates d e (addMinutes c d)). c < start s"
    proof
      fix s assume "s \<in> set (candidates d e (addMinutes c d))"
      from candidates_aligned[OF this] True show "c < start s" by (simp add: addMinutes_def)
    qed
    with "1.IH"[OF True] True show ?thesis by (subst candidates.simps) simp
  qed
qed

subsection \<open>Evaluating the examples\<close>

lemmas loop_simps =
  computeAvailableSlots_while.simps checkDayHasAvailableSlot_while.simps
  getAvailableSlots_while.simps

lemmas time_defs = addMinutes_def addDays_def startOfDay_def endOfDay_def isWithinInterval_def
  isForDate_def hasBookingConflict_def hasBusyConflict_def

lemmas example_defs = exampleRuntime_def exampleAccount_def exampleHost_def exampleServices_def
  window_9_to_10_def window_14_to_15_def exampleBooking_def exampleData_def bookingsInRange_def

lemmas action_defs = truthy_def findDefaultAccount_def hasTokens_def addsDeclined_def
  declinedBookingIds_def getGoogleBusyTimes_def getAvailableSlots_activeBookings_def
  checkSlotAvailable_declinedIds_def checkSlotAvailable_def createBooking_meetingType_def
  createBooking_requestBody_def createCalendarEvent_def orEmpty_def

subsection \<open>What the slot functions return\<close>

lemma computeAvailableSlots_cases:
  assumes "computeAvailableSlots rt av bk date d bz = Some slots"
  shows "(0 < d \<and> slots = concat (map (\<lambda>w. filter (keeps (clock rt) bk bz)
            (candidates d (clampedEnd (endOfDay rt date) w) (clampedStart (startOfDay rt date) w)))
            (filter (isForDate (startOfDay rt date) (endOfDay rt date)) av)))
         \<or> (d \<le> 0 \<and> slots = [])"
proof (cases "0 < d")
  case True
  with assms show ?thesis
    by (simp add: computeAvailableSlots_def Let_def computeAvailableSlots_for_pos)
next
  case False
  with assms have "slots = []"
    by (auto simp: computeAvailableSlots_def Let_def dest: computeAvailableSlots_for_nonpos)
  with False show ?thesis by simp
qed

lemma computeAvailableSlots_mem:
  assumes "computeAvailableSlots rt av bk date d bz = Some slots" and "s \<in> set slots"
  shows "\<exists>w \<in> set av. isForDate (startOfDay rt date) (endOfDay rt date) w
           \<and> keeps (clock rt) bk bz s
           \<and> s \<in> set (candidates d (clampedEnd (endOfDay rt date) w)
                          (clampedStart (startOfDay rt date) w))"
  using computeAvailableSlots_cases[OF assms(1)] assms(2) by auto

lemma getAvailableSlots_for_mem:
  assumes "getAvailableSlots_for d ds de ws [] = Some allSlots" and "s \<in> set allSlots"
  shows "\<exists>w \<in> set ws. s \<in> set (candidates d (clampedEnd de w) (clampedStart ds w))"
proof (cases "0 < d")
  case True
  with assms show ?thesis by (auto simp: getAvailableSlots_for_pos)
next
  case False
  with assms(1) have "allSlots = []" by (auto dest: getAvailableSlots_for_nonpos)
  with assms(2) show ?thesis by simp
qed



text \<open>The slots of \<open>computeAvailableSlots\<close> do not start before the clock.\<close>

lemma computeAvailableSlots_not_past:
  assumes "computeAvailableSlots rt av bk date d bz = Some slots" and "s \<in> set slots"
  shows "clock rt \<le> start s"
  using computeAvailableSlots_mem[OF assms] by (auto simp: keeps_def)


text \<open>
  C7. Every candidate slot cut from an availability block clamped to the day is exactly
  the slot duration long, starts a whole number of durations after the clamped start,
  and ends no later than the clamped end: for the candidates of \<open>getAvailableSlots\<close>
  and for the slots of \<open>computeAvailableSlots\<close>. With a positive duration the
  generating loop returns.
\<close>

theorem candidate_slots_aligned:
  "(getAvailableSlots_for d dayStart dayEnd ws [] = Some allSlots \<longrightarrow>
      (\<forall>s \<in> set allSlots. \<exists>w \<in> set ws.
          end' s - start s = d * 60000
        \<and> (\<exists>k::nat. start s = clampedStart dayStart w + int k * (d * 60000))
        \<and> end' s \<le> clampedEnd dayEnd w))
   \<and> (computeAvailableSlots rt av bk date d bz = Some slots \<longrightarrow>
      (\<forall>s \<in> set slots. \<exists>w \<in> set av. isForDate (startOfDay rt date) (endOfDay rt date) w
        \<and> end' s - start s = d * 60000
        \<and> (\<exists>k::nat. start s = clampedStart (startOfDay rt date) w + int k * (d * 60000))
        \<and> end' s \<le> clampedEnd (endOfDay rt date) w))
   \<and> (0 < d \<longrightarrow> (\<exists>all. getAvailableSlots_for d dayStart dayEnd ws [] = Some all))"
proof (intro conjI impI ballI)
  fix s
  assume "getAvailableSlots_for d dayStart dayEnd ws [] = Some allSlots" and "s \<in> set allSlots"
  then obtain w where w: "w \<in> set ws"
    and s: "s \<in> set (candidates d (clampedEnd dayEnd w) (clampedStart dayStart w))"
    using getAvailableSlots_for_mem by blast
  from candidates_aligned[OF s] obtain k :: nat where
    "end' s = addMinutes (start s) d" "end' s \<le> clampedEnd dayEnd w"
    "start s = addMinutes (clampedStart dayStart w) (int k * d)" by blast
  then have "end' s - start s = d * 60000
        \<and> start s = clampedStart dayStart w + int k * (d * 60000)
        \<and> end' s \<le> clampedEnd dayEnd w"
    by (simp add: addMinutes_def)
  with w show "\<exists>w \<in> set ws. end' s - start s = d * 60000
        \<and> (\<exists>k::nat. start s = clampedStart dayStart w + int k * (d * 60000))
        \<and> end' s \<le> clampedEnd dayEnd w" by blast
next
  fix s
  assume "computeAvailableSlots rt av bk date d bz = Some slots" and "s \<in> set slots"
  then obtain w where w: "w \<in> set av" "isForDate (startOfDay rt date) (endOfDay rt date) w"
    and s: "s \<in> set (candidates d (clampedEnd (endOfDay rt date) w)
                        (clampedStart (startOfDay rt date) w))"
    using computeAvailableSlots_mem by blast
  from candidates_aligned[OF s] obtain k :: nat where
    "end' s = addMinutes (start s) d" "end' s \<le> clampedEnd (endOfDay rt date) w"
    "start s = addMinutes (clampedStart (startOfDay rt date) w) (int k * d)" by blast
  then have "end' s - start s = d * 60000
        \<and> start s = clampedStart (startOfDay rt date) w + int k * (d * 60000)
        \<and> end' s \<le> clampedEnd (endOfDay rt date) w"
    by (simp add: addMinutes_def)
  with w show "\<exists>w \<in> set av. isForDate (startOfDay rt date) (endOfDay rt date) w
        \<and> end' s - start s = d * 60000
        \<and> (\<exists>k::nat. start s = clampedStart (startOfDay rt date) w + int k * (d * 60000))
        \<and> end' s \<le> clampedEnd (endOfDay rt date) w" by blast
next
  assume "0 < d"
  then show "\<exists>all. getAvailableSlots_for d dayStart dayEnd ws [] = Some all"
    by (simp add: getAvailableSlots_for_pos)
qed

text \<open>Scenario C of the spec: a block from 09:00 to 10:00 and a duration of 45 minutes
  give the one slot 09:00 to 09:45.\<close>

theorem candidate_slots_aligned_witness:
  "getAvailableSlots_for 45 0 86399999 [window_9_to_10] []
     = Some [\<lparr>start = 32400000, end' = 35100000\<rparr>]
   \<and> end' \<lparr>start = 32400000, end' = 35100000\<rparr> - start \<lparr>start = 32400000, end' = 35100000\<rparr>
       = 45 * 60000
   \<and> end' \<lparr>start = 32400000, end' = 35100000\<rparr> \<le> clampedEnd 86399999 window_9_to_10"
proof -
  have ev: "getAvailableSlots_for 45 0 86399999 [window_9_to_10] []
     = Some [\<lparr>start = 32400000, end' = 35100000\<rparr>]"
    by (simp add: loop_simps time_defs example_defs)
  from candidate_slots_aligned[of 45 0 86399999 "[window_9_to_10]"
      "[\<lparr>start = 32400000, end' = 35100000\<rparr>]"] ev
  have "\<forall>s \<in> set [\<lparr>start = 32400000, end' = 35100000\<rparr>]. \<exists>w \<in> set [window_9_to_10].
          end' s - start s = 45 * 60000
        \<and> (\<exists>k::nat. start s = clampedStart 0 w + int k * (45 * 60000))
        \<and> end' s \<le> clampedEnd 86399999 w"
    by blast
  then have "end' \<lparr>start = 32400000, end' = 35100000\<rparr> - start \<lparr>start = 32400000, end' = 35100000\<rparr>
       = 45 * 60000
     \<and> end' \<lparr>start = 32400000, end' = 35100000\<rparr> \<le> clampedEnd 86399999 window_9_to_10"
    by auto
  with ev show ?thesis by blast
qed



subsection \<open>Order of the returned slots\<close>

lemma clamped_bounds:
  "startDateTime w \<le> clampedStart ds w" "clampedEnd de w \<le> endDateTime w"
  by (simp_all add: clampedStart_def clampedEnd_def)

lemma candidates_blocks_sorted:
  "windowsChronological ws \<Longrightarrow>
   sorted_wrt (\<lambda>a b. start a < start b)
     (concat (map (\<lambda>w. candidates d (clampedEnd de w) (clampedStart ds w)) ws))"
proof (induction ws)
  case Nil
  then show ?case by simp
next
  case (Cons w ws)
  have later: "start x < start y"
    if x: "x \<in> set (candidates d (clampedEnd de w) (clampedStart ds w))"
      and w': "w' \<in> set ws"
      and y: "y \<in> set (candidates d (clampedEnd de w') (clampedStart ds w'))" for x y w'
  proof -
    from candidates_aligned[OF x] have "start x < end' x" "end' x \<le> clampedEnd de w"
      by (simp_all add: addMinutes_def)
    moreover from Cons.prems w' have "endDateTime w \<le> startDateTime w'"
      by (simp add: windowsChronological_def)
    moreover from candidates_aligned[OF y] have "clampedStart ds w' \<le> start y" by simp
    ultimately show ?thesis using clamped_bounds(2)[of de w] clamped_bounds(1)[of w' ds]
      by linarith
  qed
  from Cons have "sorted_wrt (\<lambda>a b. start a < start b)
     (concat (map (\<lambda>w. candidates d (clampedEnd de w) (clampedStart ds w)) ws))"
    by (simp add: windowsChronological_def)
  with later show ?case
    by (auto simp: sorted_wrt_append candidates_sorted)
qed

lemma sorted_starts:
  "sorted_wrt (\<lambda>a b. start a < start b) xs \<Longrightarrow> sorted (map start (filter P xs))"
proof -
  assume "sorted_wrt (\<lambda>a b. start a < start b) xs"
  then have "sorted_wrt (\<lambda>a b. start a < start b) (filter P xs)" by (rule sorted_wrt_filter)
  then have "sorted_wrt (\<lambda>a b. start a \<le> start b) (filter P xs)"
    by (rule sorted_wrt_mono_rel[rotated]) simp
  then show ?thesis by (simp add: sorted_map)
qed

lemma computeAvailableSlots_sorted:
  assumes "computeAvailableSlots rt av bk date d bz = Some slots"
    and "windowsChronological (filter (isForDate (startOfDay rt date) (endOfDay rt date)) av)"
  shows "sorted (map start slots)"
proof -
  from computeAvailableSlots_cases[OF assms(1)]
  consider "slots = filter (keeps (clock rt) bk bz)
      (concat (map (\<lambda>w. candidates d (clampedEnd (endOfDay rt date) w)
                           (clampedStart (startOfDay rt date) w))
         (filter (isForDate (startOfDay rt date) (endOfDay rt date)) av)))" | "slots = []"
    by (auto simp: filter_concat comp_def)
  then show ?thesis
  proof cases
    case 1
    show ?thesis unfolding 1 by (rule sorted_starts, rule candidates_blocks_sorted, rule assms(2))
  next
    case 2
    then show ?thesis by simp
  qed
qed

lemma getAvailableSlots_sorted:
  assumes r: "getAvailableSlots rt svc store hostSlug' date d = Some (Inr slots)"
    and h: "HOST_BY_SLUG_WITH_TOKENS_QUERY svc hostSlug' = Some h"
    and c: "windowsChronological (filter (isForDate (startOfDay rt date) (endOfDay rt date))
              (case availability h of None \<Rightarrow> [] | Some a \<Rightarrow> a))"
  shows "sorted (map start slots)"
proof -
  let ?ws = "filter (isForDate (startOfDay rt date) (endOfDay rt date))
              (case availability h of None \<Rightarrow> [] | Some a \<Rightarrow> a)"
  from r h consider "slots = []"
    | allSlots P where "getAvailableSlots_for d (startOfDay rt date) (endOfDay rt date) ?ws []
          = Some allSlots" "slots = filter P allSlots"
    by (auto simp: getAvailableSlots_def Let_def split: if_splits option.splits sum.splits)
  then show ?thesis
  proof cases
    case 1
    then show ?thesis by simp
  next
    case 2
    show ?thesis
    proof (cases "0 < d")
      case True
      with 2(1) have "allSlots = concat (map (\<lambda>w. candidates d (clampedEnd (endOfDay rt date) w)
                           (clampedStart (startOfDay rt date) w)) ?ws)"
        by (simp add: getAvailableSlots_for_pos)
      then show ?thesis unfolding 2(2)
        using sorted_starts[OF candidates_blocks_sorted[OF c]] by simp
    next
      case False
      with 2(1) have "allSlots = []" by (auto dest: getAvailableSlots_for_nonpos)
      with 2(2) show ?thesis by simp
    qed
  qed
qed

text \<open>
  C6, as the code has it. The slots come block by block in the stored order of the
  host's availability blocks, and nothing sorts them: the list is chronological when the
  blocks relevant to the date are stored in chronological order, each ending no later
  than the next begins (a single block always is).
\<close>

theorem available_slots_chronological:
  "(computeAvailableSlots rt av bk date d bz = Some slots \<longrightarrow>
      windowsChronological (filter (isForDate (startOfDay rt date) (endOfDay rt date)) av) \<longrightarrow>
      sorted (map start slots))
   \<and> (getAvailableSlots rt svc store hostSlug' date d = Some (Inr slots') \<longrightarrow>
        HOST_BY_SLUG_WITH_TOKENS_QUERY svc hostSlug' = Some h \<longrightarrow>
        windowsChronological (filter (isForDate (startOfDay rt date) (endOfDay rt date))
              (case availability h of None \<Rightarrow> [] | Some a \<Rightarrow> a)) \<longrightarrow>
      sorted (map start slots'))"
  using computeAvailableSlots_sorted getAvailableSlots_sorted by blast

theorem available_slots_chronological_witness:
  "getAvailableSlots (exampleRuntime 0)
      (exampleServices (Some (exampleHost [window_9_to_10, window_14_to_15]))) [] ''ada'' 0 30
     = Some (Inr [\<lparr>start = 32400000, end' = 34200000\<rparr>, \<lparr>start = 34200000, end' = 36000000\<rparr>,
                  \<lparr>start = 50400000, end' = 52200000\<rparr>, \<lparr>start = 52200000, end' = 54000000\<rparr>])
   \<and> sorted (map start [\<lparr>start = 32400000, end' = 34200000\<rparr>, \<lparr>start = 34200000, end' = 36000000\<rparr>,
                  \<lparr>start = 50400000, end' = 52200000\<rparr>, \<lparr>start = 52200000, end' = 54000000\<rparr>])"
proof -
  let ?svc = "exampleServices (Some (exampleHost [window_9_to_10, window_14_to_15]))"
  let ?slots = "[\<lparr>start = 32400000, end' = 34200000\<rparr>, \<lparr>start = 34200000, end' = 36000000\<rparr>,
                  \<lparr>start = 50400000, end' = 52200000\<rparr>, \<lparr>start = 52200000, end' = 54000000\<rparr>]"
  have ev: "getAvailableSlots (exampleRuntime 0) ?svc [] ''ada'' 0 30 = Some (Inr ?slots)"
    by (simp add: getAvailableSlots_def loop_simps time_defs example_defs action_defs)
  have h: "HOST_BY_SLUG_WITH_TOKENS_QUERY ?svc ''ada''
             = Some (exampleHost [window_9_to_10, window_14_to_15])"
    by (simp add: exampleServices_def)
  have c: "windowsChronological (filter (isForDate (startOfDay (exampleRuntime 0) 0)
              (endOfDay (exampleRuntime 0) 0))
              (case availability (exampleHost [window_9_to_10, window_14_to_15]) of
                 None \<Rightarrow> [] | Some a \<Rightarrow> a))"
    by (simp add: windowsChronological_def time_defs example_defs)
  from available_slots_chronological[where rt = "exampleRuntime 0" and svc = ?svc
      and store = "[]" and hostSlug' = "''ada''" and date = 0 and d = 30 and slots' = ?slots
      and h = "exampleHost [window_9_to_10, window_14_to_15]"] ev h c
  have "sorted (map start ?slots)" by blast
  with ev show ?thesis by blast
qed

text \<open>The claim as stated fails: with the later block stored first, the afternoon slots
  come before the morning slots.\<close>

theorem available_slots_chronological_counterexample:
  "getAvailableSlots (exampleRuntime 0)
      (exampleServices (Some (exampleHost [window_14_to_15, window_9_to_10]))) [] ''ada'' 0 30
     = Some (Inr [\<lparr>start = 50400000, end' = 52200000\<rparr>, \<lparr>start = 52200000, end' = 54000000\<rparr>,
                  \<lparr>start = 32400000, end' = 34200000\<rparr>, \<lparr>start = 34200000, end' = 36000000\<rparr>])
   \<and> computeAvailableSlots (exampleRuntime 0) [window_14_to_15, window_9_to_10]
        ([] :: BookingSlot list) 0 30 []
     = Some [\<lparr>start = 50400000, end' = 52200000\<rparr>, \<lparr>start = 52200000, end' = 54000000\<rparr>,
             \<lparr>start = 32400000, end' = 34200000\<rparr>, \<lparr>start = 34200000, end' = 36000000\<rparr>]
   \<and> \<not> sorted (map start
          [\<lparr>start = 50400000, end' = 52200000\<rparr>, \<lparr>start = 52200000, end' = 54000000\<rparr>,
           \<lparr>start = 32400000, end' = 34200000\<rparr>, \<lparr>start = 34200000, end' = 36000000\<rparr>])"
  by (simp add: getAvailableSlots_def computeAvailableSlots_def loop_simps time_defs example_defs
        action_defs)

subsection \<open>Past slots\<close>

text \<open>
  C1. \<open>computeAvailableSlots\<close> skips the candidates that start before the clock
  (\<open>computeAvailableSlots_not_past\<close>); \<open>getAvailableSlots\<close> has no such check. Scenario D
  of the spec: the clock is at 09:15, the block is 09:00 to 10:00, the duration 30
  minutes. \<open>getAvailableSlots\<close> returns the slot from 09:00, which has started;
  \<open>computeAvailableSlots\<close> returns only the slot from 09:30.
\<close>

theorem getAvailableSlots_returns_past_slot:
  "getAvailableSlots (exampleRuntime 33300000)
      (exampleServices (Some (exampleHost [window_9_to_10]))) [] ''ada'' 33300000 30
     = Some (Inr [\<lparr>start = 32400000, end' = 34200000\<rparr>, \<lparr>start = 34200000, end' = 36000000\<rparr>])
   \<and> start \<lparr>start = 32400000, end' = 34200000\<rparr> < clock (exampleRuntime 33300000)
   \<and> computeAvailableSlots (exampleRuntime 33300000) [window_9_to_10] ([] :: BookingSlot list)
        33300000 30 []
     = Some [\<lparr>start = 34200000, end' = 36000000\<rparr>]"
  by (simp add: getAvailableSlots_def computeAvailableSlots_def loop_simps time_defs example_defs
        action_defs)

subsection \<open>A failing busy-time fetch\<close>

lemma getAvailableDates_busy_failure:
  assumes "HOST_BY_SLUG_WITH_TOKENS_QUERY svc hostSlug' = Some h"
    and "getGoogleBusyTimes svc (connectedAccounts h) startDate endDate = Inl e"
  shows "getAvailableDates rt svc store hostSlug' startDate endDate d
         = map_option Inr
             (computeAvailableDates rt (case availability h of None \<Rightarrow> [] | Some a \<Rightarrow> a)
                (BOOKINGS_IN_RANGE_QUERY svc store (userId h) startDate endDate)
                startDate endDate d [])"
  using assms by (simp add: getAvailableDates_def)

lemma getAvailableSlots_busy_failure:
  assumes "HOST_BY_SLUG_WITH_TOKENS_QUERY svc hostSlug' = Some h"
    and "filter (isForDate (startOfDay rt date) (endOfDay rt date))
           (case availability h of None \<Rightarrow> [] | Some a \<Rightarrow> a) \<noteq> []"
    and "getGoogleBusyTimes svc (connectedAccounts h) (startOfDay rt date) (endOfDay rt date) = Inl e"
  shows "getAvailableSlots rt svc store hostSlug' date d = Some (Inl e)"
  using assms by (simp add: getAvailableSlots_def Let_def)

text \<open>
  C2. The busy-time fetch throws. \<open>getAvailableDates\<close> catches it and goes on with no busy
  times (\<open>getAvailableDates_busy_failure\<close>); \<open>getAvailableSlots\<close> calls
  \<open>getGoogleBusyTimes\<close> outside any \<open>try\<close>, so the failure reaches its caller. Here the
  host has the block 09:00 to 10:00 and the calendar fetch fails.
\<close>

theorem getAvailableSlots_propagates_busy_failure:
  "getAvailableSlots (exampleRuntime 0)
      ((exampleServices (Some (exampleHost [window_9_to_10])))
         \<lparr>fetchCalendarEvents := (\<lambda>accounts s e. Inl ExternalFailure)\<rparr>) [] ''ada'' 0 30
     = Some (Inl ExternalFailure)
   \<and> getAvailableDates (exampleRuntime 0)
      ((exampleServices (Some (exampleHost [window_9_to_10])))
         \<lparr>fetchCalendarEvents := (\<lambda>accounts s e. Inl ExternalFailure)\<rparr>) [] ''ada'' 0 86399999 30
     = Some (Inr [''1970-01-01''])"
  by (simp add: getAvailableSlots_def getAvailableDates_def computeAvailableDates_def
        computeAvailableDates_while.simps loop_simps time_defs example_defs action_defs)

subsection \<open>A host that does not exist\<close>

text \<open>
  C3, as the code has it. When the host lookup by slug yields no host,
  \<open>getAvailableSlots\<close> throws "Host not found" and \<open>getAvailableDates\<close> returns the
  empty list.
\<close>

theorem missing_host:
  "HOST_BY_SLUG_WITH_TOKENS_QUERY svc hostSlug' = None \<Longrightarrow>
     getAvailableSlots rt svc store hostSlug' date d = Some (Inl HostNotFound)
     \<and> getAvailableDates rt svc store hostSlug' startDate endDate d = Some (Inr [])"
  by (simp add: getAvailableSlots_def getAvailableDates_def)

theorem missing_host_witness:
  "getAvailableSlots (exampleRuntime 0) (exampleServices None) [] ''ada'' 0 30
     = Some (Inl HostNotFound)
   \<and> getAvailableDates (exampleRuntime 0) (exampleServices None) [] ''ada'' 0 86399999 30
     = Some (Inr [])"
proof -
  have "HOST_BY_SLUG_WITH_TOKENS_QUERY (exampleServices None) ''ada'' = None"
    by (simp add: exampleServices_def)
  then show ?thesis by (rule missing_host)
qed

theorem getAvailableDates_missing_host_counterexample:
  "HOST_BY_SLUG_WITH_TOKENS_QUERY (exampleServices None) ''ada'' = None
   \<and> getAvailableDates (exampleRuntime 0) (exampleServices None) [] ''ada'' 0 86399999 30
       = Some (Inr [])
   \<and> getAvailableDates (exampleRuntime 0) (exampleServices None) [] ''ada'' 0 86399999 30
       \<noteq> Some (Inl HostNotFound)"
  by (simp add: getAvailableDates_def exampleServices_def)

subsection \<open>The date probe and the time of day\<close>

lemma startOfDay_clock [simp]: "startOfDay (rt\<lparr>clock := n\<rparr>) t = startOfDay rt t"
  by (simp add: startOfDay_def)

lemma endOfDay_clock [simp]: "endOfDay (rt\<lparr>clock := n\<rparr>) t = endOfDay rt t"
  by (simp add: endOfDay_def)

lemma startOfDay_idem: "startOfDay rt (startOfDay rt t) = startOfDay rt t"
proof -
  have "(t - (t + tzOffset rt) mod 86400000 + tzOffset rt) mod 86400000 = 0"
    by (simp add: algebra_simps mod_simps)
  then show ?thesis by (simp add: startOfDay_def)
qed

lemma computeAvailableDates_while_clock:
  "computeAvailableDates_while (rt\<lparr>clock := n\<rparr>) av bk endDate d bz today cur acc
     = computeAvailableDates_while rt av bk endDate d bz today cur acc"
proof (induction rt av bk endDate d bz today cur acc rule: computeAvailableDates_while.induct)
  case (1 rt av bk endDate d bz today cur acc)
  note eq1 = computeAvailableDates_while.simps
                [of "rt\<lparr>clock := n\<rparr>" av bk endDate d bz today cur acc]
    and eq2 = computeAvailableDates_while.simps[of rt av bk endDate d bz today cur acc]
  note ih1 = "1.IH"(1) and ih2 = "1.IH"(2)[OF _ _ refl refl refl] and ih3 = "1.IH"(3)[OF _ _ refl refl refl]
  show ?case
  proof (cases "cur \<le> endDate")
    case False
    then show ?thesis by (simp add: eq1 eq2)
  next
    case le: True
    show ?thesis
    proof (cases "cur < today")
      case True
      with le ih1 show ?thesis by (simp add: eq1 eq2)
    next
      case nlt: False
      let ?ws = "filter (isForDate (startOfDay rt cur) (endOfDay rt cur)) av"
      show ?thesis
      proof (cases "0 < length ?ws")
        case False
        with le nlt ih3 show ?thesis by (simp add: eq1 eq2 Let_def)
      next
        case pos: True
        show ?thesis
        proof (cases "checkDayHasAvailableSlot ?ws bk (startOfDay rt cur) (endOfDay rt cur) d bz")
          case None
          with le nlt pos show ?thesis by (simp add: eq1 eq2 Let_def)
        next
          case (Some x2)
          from ih2[OF le nlt pos Some] le nlt pos Some show ?thesis
            by (cases x2) (simp_all add: eq1 eq2 Let_def)
        qed
      qed
    qed
  qed
qed

text \<open>
  C10. \<open>computeAvailableDates\<close> reads the clock only through \<open>startOfDay\<close>: the time of
  day does not matter to it, and its probe \<open>checkDayHasAvailableSlot\<close> is not given the
  clock at all. With the block 09:00 to 10:00 of today and the clock at 12:00, today is
  among the available dates, while \<open>computeAvailableSlots\<close> has no slot left for today.
\<close>

theorem probe_ignores_time_of_day:
  "computeAvailableDates (rt\<lparr>clock := n\<rparr>) av bk startDate endDate d bz
     = computeAvailableDates (rt\<lparr>clock := startOfDay rt n\<rparr>) av bk startDate endDate d bz
   \<and> computeAvailableDates (rt\<lparr>tzOffset := 0, clock := 43200000\<rparr>) [window_9_to_10]
        ([] :: BookingSlot list) 43200000 43200000 30 []
     = Some [format rt 0]
   \<and> startOfDay (rt\<lparr>tzOffset := 0, clock := 43200000\<rparr>) 43200000 = 0
   \<and> computeAvailableSlots (rt\<lparr>tzOffset := 0, clock := 43200000\<rparr>) [window_9_to_10]
        ([] :: BookingSlot list) 43200000 30 []
     = Some []"
proof (intro conjI)
  show "computeAvailableDates (rt\<lparr>clock := n\<rparr>) av bk startDate endDate d bz
     = computeAvailableDates (rt\<lparr>clock := startOfDay rt n\<rparr>) av bk startDate endDate d bz"
    by (simp add: computeAvailableDates_def computeAvailableDates_while_clock startOfDay_idem)
  show "computeAvailableDates (rt\<lparr>tzOffset := 0, clock := 43200000\<rparr>) [window_9_to_10]
        ([] :: BookingSlot list) 43200000 43200000 30 [] = Some [format rt 0]"
    by (simp add: computeAvailableDates_def computeAvailableDates_while.simps loop_simps
          time_defs example_defs)
  show "startOfDay (rt\<lparr>tzOffset := 0, clock := 43200000\<rparr>) 43200000 = 0"
    by (simp add: startOfDay_def)
  show "computeAvailableSlots (rt\<lparr>tzOffset := 0, clock := 43200000\<rparr>) [window_9_to_10]
        ([] :: BookingSlot list) 43200000 30 [] = Some []"
    by (simp add: computeAvailableSlots_def loop_simps time_defs example_defs)
qed

subsection \<open>createBooking\<close>

lemma createBooking_failure_keeps_store:
  "fst (createBooking svc store data) = Inl e \<Longrightarrow> snd (createBooking svc store data) = store"
  by (auto simp: createBooking_def Let_def split: option.splits if_splits prod.splits)

lemma checkSlotAvailable_conflict:
  assumes "b \<in> set (BOOKINGS_IN_RANGE_QUERY svc store (userId h) s e)"
    and "overlaps \<lparr>start = s, end' = e\<rparr> (bookingInterval b)"
    and "bookingId b \<notin> set (checkSlotAvailable_declinedIds svc store h s e)"
  shows "\<not> checkSlotAvailable svc store h s e"
  using assms
  by (auto simp: checkSlotAvailable_def Let_def list_ex_iff overlaps_def bookingInterval_def)

lemma existing_booking_fetched:
  assumes "b \<in> set store" and "host b = hostId"
    and "overlaps \<lparr>start = s, end' = e\<rparr> (bookingInterval b)"
  shows "b \<in> set (bookingsInRange store hostId s e)"
  using assms by (simp add: bookingsInRange_def overlaps_def bookingInterval_def)

lemma addsDeclined_attendeeDeclined:
  "findDefaultAccount h = Some a \<Longrightarrow> addsDeclined svc a b \<Longrightarrow> attendeeDeclined svc h b"
  by (auto simp: addsDeclined_def attendeeDeclined_def split: option.splits if_splits sum.splits)

lemma declinedIds_attendeeDeclined:
  assumes q: "BOOKINGS_IN_RANGE_QUERY svc = bookingsInRange"
    and d: "distinct (map bookingId store)"
    and b: "b \<in> set store"
    and m: "bookingId b \<in> set (checkSlotAvailable_declinedIds svc store h s e)"
  shows "attendeeDeclined svc h b"
proof -
  from m obtain a where a: "findDefaultAccount h = Some a"
    by (cases "findDefaultAccount h")
       (auto simp: checkSlotAvailable_declinedIds_def declinedBookingIds_def Let_def)
  from m q a have "bookingId b \<in> bookingId ` {x \<in> set store. addsDeclined svc a x}"
    by (auto simp: checkSlotAvailable_declinedIds_def declinedBookingIds_def bookingsInRange_def
          Let_def split: if_splits)
  then obtain b' where b': "b' \<in> set store" "addsDeclined svc a b'" "bookingId b' = bookingId b"
    by auto
  from d have "inj_on bookingId (set store)" by (simp add: distinct_map)
  with b b'(1,3) have "b' = b" by (auto dest: inj_onD)
  with a b'(2) show ?thesis by (auto intro: addsDeclined_attendeeDeclined)
qed

lemma createBooking_host_missing:
  "HOST_BY_SLUG_WITH_TOKENS_QUERY svc (hostSlug data) = None \<Longrightarrow>
     createBooking svc store data = (Inl HostNotFound, store)"
  by (simp add: createBooking_def)

lemma createBooking_quota_exceeded:
  "HOST_BY_SLUG_WITH_TOKENS_QUERY svc (hostSlug data) = Some h \<Longrightarrow>
   getHostBookingQuotaStatus_isExceeded svc (hostSlug data) \<Longrightarrow>
     createBooking svc store data = (Inl QuotaExceeded, store)"
  by (simp add: createBooking_def)

text \<open>
  C4, as the code has it. The window is re-validated after the host lookup and the quota
  check. For a request whose host exists and whose quota is not exceeded: if the window
  overlaps (half-open) an existing booking of the host that is not attendee-declined,
  \<open>createBooking\<close> fails with \<open>SlotUnavailable\<close>; this holds for every booking the range
  query returns, and so for every booking of the host in the store when the store answers
  with the range query of the spec. When the host is missing, \<open>createBooking\<close> fails with
  \<open>HostNotFound\<close>, and when the quota is exceeded, with \<open>QuotaExceeded\<close>, whatever the
  bookings are. Whenever \<open>createBooking\<close> fails, the booking documents are unchanged.
  "Not attendee-declined" is: not among the ids the check sets aside; with unique
  document ids, a booking is set aside only when its guest's status is declined.
\<close>

theorem createBooking_slot_unavailable:
  "(BOOKINGS_IN_RANGE_QUERY svc = bookingsInRange \<longrightarrow>
    HOST_BY_SLUG_WITH_TOKENS_QUERY svc (hostSlug data) = Some h \<longrightarrow>
    \<not> getHostBookingQuotaStatus_isExceeded svc (hostSlug data) \<longrightarrow>
    b \<in> set store \<longrightarrow> host b = userId h \<longrightarrow>
    overlaps \<lparr>start = dataStartTime data, end' = dataEndTime data\<rparr> (bookingInterval b) \<longrightarrow>
    bookingId b \<notin> set (checkSlotAvailable_declinedIds svc store h (dataStartTime data)
                          (dataEndTime data)) \<longrightarrow>
    createBooking svc store data = (Inl SlotUnavailable, store))
   \<and> (HOST_BY_SLUG_WITH_TOKENS_QUERY svc (hostSlug data) = Some h \<longrightarrow>
    \<not> getHostBookingQuotaStatus_isExceeded svc (hostSlug data) \<longrightarrow>
    b \<in> set (BOOKINGS_IN_RANGE_QUERY svc store (userId h) (dataStartTime data) (dataEndTime data)) \<longrightarrow>
    overlaps \<lparr>start = dataStartTime data, end' = dataEndTime data\<rparr> (bookingInterval b) \<longrightarrow>
    bookingId b \<notin> set (checkSlotAvailable_declinedIds svc store h (dataStartTime data)
                          (dataEndTime data)) \<longrightarrow>
    createBooking svc store data = (Inl SlotUnavailable, store))
   \<and> (BOOKINGS_IN_RANGE_QUERY svc = bookingsInRange \<longrightarrow>
    distinct (map bookingId store) \<longrightarrow> b \<in> set store \<longrightarrow>
    bookingId b \<in> set (checkSlotAvailable_declinedIds svc store h (dataStartTime data)
                          (dataEndTime data)) \<longrightarrow>
    attendeeDeclined svc h b)
   \<and> (HOST_BY_SLUG_WITH_TOKENS_QUERY svc (hostSlug data) = None \<longrightarrow>
    createBooking svc store data = (Inl HostNotFound, store))
   \<and> (HOST_BY_SLUG_WITH_TOKENS_QUERY svc (hostSlug data) = Some h \<longrightarrow>
    getHostBookingQuotaStatus_isExceeded svc (hostSlug data) \<longrightarrow>
    createBooking svc store data = (Inl QuotaExceeded, store))
   \<and> (fst (createBooking svc store data) = Inl e \<longrightarrow> snd (createBooking svc store data) = store)"
proof (intro conjI impI)
  assume q: "BOOKINGS_IN_RANGE_QUERY svc = bookingsInRange"
    and h: "HOST_BY_SLUG_WITH_TOKENS_QUERY svc (hostSlug data) = Some h"
    and n: "\<not> getHostBookingQuotaStatus_isExceeded svc (hostSlug data)"
    and b: "b \<in> set store" "host b = userId h"
      "overlaps \<lparr>start = dataStartTime data, end' = dataEndTime data\<rparr> (bookingInterval b)"
    and d: "bookingId b \<notin> set (checkSlotAvailable_declinedIds svc store h (dataStartTime data)
                            (dataEndTime data))"
  from b have "b \<in> set (bookingsInRange store (userId h) (dataStartTime data) (dataEndTime data))"
    by (rule existing_booking_fetched)
  with q have "b \<in> set (BOOKINGS_IN_RANGE_QUERY svc store (userId h) (dataStartTime data)
                        (dataEndTime data))"
    by simp
  from this b(3) d
  have "\<not> checkSlotAvailable svc store h (dataStartTime data) (dataEndTime data)"
    by (rule checkSlotAvailable_conflict)
  with h n show "createBooking svc store data = (Inl SlotUnavailable, store)"
    by (simp add: createBooking_def Let_def)
next
  assume h: "HOST_BY_SLUG_WITH_TOKENS_QUERY svc (hostSlug data) = Some h"
    and n: "\<not> getHostBookingQuotaStatus_isExceeded svc (hostSlug data)"
    and b: "b \<in> set (BOOKINGS_IN_RANGE_QUERY svc store (userId h) (dataStartTime data)
                        (dataEndTime data))"
      "overlaps \<lparr>start = dataStartTime data, end' = dataEndTime data\<rparr> (bookingInterval b)"
      "bookingId b \<notin> set (checkSlotAvailable_declinedIds svc store h (dataStartTime data)
                            (dataEndTime data))"
  from b have "\<not> checkSlotAvailable svc store h (dataStartTime data) (dataEndTime data)"
    by (rule checkSlotAvailable_conflict)
  with h n show "createBooking svc store data = (Inl SlotUnavailable, store)"
    by (simp add: createBooking_def Let_def)
next
  assume "BOOKINGS_IN_RANGE_QUERY svc = bookingsInRange" "distinct (map bookingId store)"
    "b \<in> set store"
    "bookingId b \<in> set (checkSlotAvailable_declinedIds svc store h (dataStartTime data)
                          (dataEndTime data))"
  then show "attendeeDeclined svc h b" by (rule declinedIds_attendeeDeclined)
next
  assume "HOST_BY_SLUG_WITH_TOKENS_QUERY svc (hostSlug data) = None"
  then show "createBooking svc store data = (Inl HostNotFound, store)"
    by (rule createBooking_host_missing)
next
  assume "HOST_BY_SLUG_WITH_TOKENS_QUERY svc (hostSlug data) = Some h"
    "getHostBookingQuotaStatus_isExceeded svc (hostSlug data)"
  then show "createBooking svc store data = (Inl QuotaExceeded, store)"
    by (rule createBooking_quota_exceeded)
next
  assume "fst (createBooking svc store data) = Inl e"
  then show "snd (createBooking svc store data) = store"
    by (rule createBooking_failure_keeps_store)
qed

text \<open>Scenario E of the spec: the slot 09:00 to 09:30 has just been booked, and the
  request for it fails with \<open>SlotUnavailable\<close>. The same request fails with
  \<open>HostNotFound\<close> when the host is missing and with \<open>QuotaExceeded\<close> when the quota is
  exceeded; the booking documents stay as they were. A booking the check sets aside is
  one whose guest has declined.\<close>

theorem createBooking_slot_unavailable_witness:
  "createBooking (exampleServices (Some (exampleHost [window_9_to_10])))
      [exampleBooking 32400000 34200000] (exampleData 32400000 34200000)
     = (Inl SlotUnavailable, [exampleBooking 32400000 34200000])
   \<and> createBooking (exampleServices None)
      [exampleBooking 32400000 34200000] (exampleData 32400000 34200000)
     = (Inl HostNotFound, [exampleBooking 32400000 34200000])
   \<and> createBooking
      ((exampleServices (Some (exampleHost [window_9_to_10])))
         \<lparr>getHostBookingQuotaStatus_isExceeded := (\<lambda>hs. True)\<rparr>)
      [exampleBooking 32400000 34200000] (exampleData 32400000 34200000)
     = (Inl QuotaExceeded, [exampleBooking 32400000 34200000])
   \<and> attendeeDeclined
       ((exampleServices (Some (exampleHost [window_9_to_10])))
          \<lparr>getEventAttendeeStatus := (\<lambda>a gid mail. Inr declined)\<rparr>)
       (exampleHost [window_9_to_10])
       ((exampleBooking 32400000 34200000)\<lparr>googleEventId := Some ''event-1''\<rparr>)"
proof -
  let ?h = "exampleHost [window_9_to_10]"
  let ?svc = "exampleServices (Some ?h)"
  let ?svcD = "?svc\<lparr>getEventAttendeeStatus := (\<lambda>a gid mail. Inr declined)\<rparr>"
  let ?bE = "(exampleBooking 32400000 34200000)\<lparr>googleEventId := Some ''event-1''\<rparr>"
  let ?svcQ = "?svc\<lparr>getHostBookingQuotaStatus_isExceeded := (\<lambda>hs. True)\<rparr>"
  let ?b = "exampleBooking 32400000 34200000"
  let ?data = "exampleData 32400000 34200000"
  have q: "BOOKINGS_IN_RANGE_QUERY ?svc = bookingsInRange"
    by (simp add: exampleServices_def)
  have h: "HOST_BY_SLUG_WITH_TOKENS_QUERY ?svc (hostSlug ?data) = Some ?h"
    by (simp add: exampleServices_def exampleData_def)
  have n: "\<not> getHostBookingQuotaStatus_isExceeded ?svc (hostSlug ?data)"
    by (simp add: exampleServices_def)
  have b1: "?b \<in> set [?b]" by simp
  have b2: "host ?b = userId ?h" by (simp add: exampleBooking_def exampleHost_def)
  have b3: "overlaps \<lparr>start = dataStartTime ?data, end' = dataEndTime ?data\<rparr> (bookingInterval ?b)"
    by (simp add: overlaps_def bookingInterval_def example_defs)
  have b4: "bookingId ?b \<notin> set (checkSlotAvailable_declinedIds ?svc [?b] ?h
                (dataStartTime ?data) (dataEndTime ?data))"
    by (simp add: action_defs example_defs)
  have h0: "HOST_BY_SLUG_WITH_TOKENS_QUERY (exampleServices None) (hostSlug ?data) = None"
    by (simp add: exampleServices_def)
  have hq: "HOST_BY_SLUG_WITH_TOKENS_QUERY ?svcQ (hostSlug ?data) = Some ?h"
    by (simp add: exampleServices_def exampleData_def)
  have nq: "getHostBookingQuotaStatus_isExceeded ?svcQ (hostSlug ?data)"
    by (simp add: exampleServices_def)
  from createBooking_slot_unavailable[where svc = ?svc and data = ?data and store = "[?b]"
      and b = ?b and h = ?h] q h n b1 b2 b3 b4
  have 1: "createBooking ?svc [?b] ?data = (Inl SlotUnavailable, [?b])" by blast
  from createBooking_slot_unavailable[where svc = "exampleServices None" and data = ?data
      and store = "[?b]"] h0
  have 2: "createBooking (exampleServices None) [?b] ?data = (Inl HostNotFound, [?b])" by blast
  from createBooking_slot_unavailable[where svc = ?svcQ and data = ?data and store = "[?b]"
      and h = ?h] hq nq
  have 3: "createBooking ?svcQ [?b] ?data = (Inl QuotaExceeded, [?b])" by blast
  have qd: "BOOKINGS_IN_RANGE_QUERY ?svcD = bookingsInRange"
    by (simp add: exampleServices_def)
  have dd: "distinct (map bookingId [?bE])" by simp
  have md: "bookingId ?bE \<in> set (checkSlotAvailable_declinedIds ?svcD [?bE] ?h
                (dataStartTime ?data) (dataEndTime ?data))"
    by (simp add: action_defs example_defs)
  from createBooking_slot_unavailable[where svc = ?svcD and data = ?data and store = "[?bE]"
      and b = ?bE and h = ?h] qd dd md
  have 4: "attendeeDeclined ?svcD ?h ?bE" by simp
  from 1 2 3 4 show ?thesis by blast
qed

text \<open>The claim as stated fails: the host's quota is exceeded and the window overlaps an
  existing booking of the host that is not declined; the error is \<open>QuotaExceeded\<close>, not
  \<open>SlotUnavailable\<close>.\<close>

theorem createBooking_slot_unavailable_counterexample:
  "exampleBooking 32400000 34200000 \<in> set [exampleBooking 32400000 34200000]
   \<and> host (exampleBooking 32400000 34200000) = userId (exampleHost [window_9_to_10])
   \<and> overlaps \<lparr>start = 32400000, end' = 34200000\<rparr>
        (bookingInterval (exampleBooking 32400000 34200000))
   \<and> \<not> attendeeDeclined
        ((exampleServices (Some (exampleHost [window_9_to_10])))
           \<lparr>getHostBookingQuotaStatus_isExceeded := (\<lambda>hs. True)\<rparr>)
        (exampleHost [window_9_to_10]) (exampleBooking 32400000 34200000)
   \<and> bookingId (exampleBooking 32400000 34200000)
       \<notin> set (checkSlotAvailable_declinedIds
                ((exampleServices (Some (exampleHost [window_9_to_10])))
                   \<lparr>getHostBookingQuotaStatus_isExceeded := (\<lambda>hs. True)\<rparr>)
                [exampleBooking 32400000 34200000] (exampleHost [window_9_to_10])
                32400000 34200000)
   \<and> createBooking
        ((exampleServices (Some (exampleHost [window_9_to_10])))
           \<lparr>getHostBookingQuotaStatus_isExceeded := (\<lambda>hs. True)\<rparr>)
        [exampleBooking 32400000 34200000] (exampleData 32400000 34200000)
     = (Inl QuotaExceeded, [exampleBooking 32400000 34200000])
   \<and> fst (createBooking
        ((exampleServices (Some (exampleHost [window_9_to_10])))
           \<lparr>getHostBookingQuotaStatus_isExceeded := (\<lambda>hs. True)\<rparr>)
        [exampleBooking 32400000 34200000] (exampleData 32400000 34200000))
     \<noteq> Inl SlotUnavailable"
  by (simp add: createBooking_def overlaps_def bookingInterval_def attendeeDeclined_def
        action_defs example_defs)

text \<open>
  C8. The host is found, the quota is not exceeded and the window is re-validated as
  available; the calendar call fails (the client cannot be made, or the insert throws).
  \<open>createBooking\<close> returns the new id and persists the booking with status confirmed,
  without event id and without meeting link.
\<close>

theorem createBooking_calendar_failure:
  assumes "HOST_BY_SLUG_WITH_TOKENS_QUERY svc (hostSlug data) = Some h"
    and "\<not> getHostBookingQuotaStatus_isExceeded svc (hostSlug data)"
    and "checkSlotAvailable svc store h (dataStartTime data) (dataEndTime data)"
    and "findDefaultAccount h = Some a"
    and "isl (getCalendarClient svc a) \<or> (\<forall>ev. isl (events_insert svc a ev))"
  shows "createBooking svc store data =
     (Inr (newDocumentId svc (length store)),
      store @
      [\<lparr>bookingId = newDocumentId svc (length store),
        startTime = dataStartTime data,
        endTime = dataEndTime data,
        host = userId h,
        meetingType =
          (if truthy (map_option meetingTypeId (createBooking_meetingType svc data))
           then map_option meetingTypeId (createBooking_meetingType svc data) else None),
        guestName = dataGuestName data,
        guestEmail = Some (dataGuestEmail data),
        googleEventId = None,
        meetLink = None,
        status = ''confirmed'',
        bookingNotes = dataNotes data\<rparr>])"
proof -
  have "createCalendarEvent svc h data n = (None, None)" for n
  proof (cases "getCalendarClient svc a")
    case (Inl e)
    with assms(4) show ?thesis by (simp add: createCalendarEvent_def)
  next
    case (Inr c)
    with assms(5) have "isl (events_insert svc a (createBooking_requestBody h data n))" by simp
    then obtain e where "events_insert svc a (createBooking_requestBody h data n) = Inl e"
      by (auto simp: isl_def)
    with assms(4) Inr show ?thesis by (simp add: createCalendarEvent_def)
  qed
  with assms(1-3) show ?thesis
    by (simp add: createBooking_def Let_def)
qed

theorem createBooking_calendar_failure_witness:
  "createBooking
     ((exampleServices (Some (exampleHost [window_9_to_10])))
        \<lparr>events_insert := (\<lambda>acc ev. Inl ExternalFailure)\<rparr>)
     [] (exampleData 32400000 34200000)
   = (Inr ''doc-'',
      [\<lparr>bookingId = ''doc-'', startTime = 32400000, endTime = 34200000, host = ''user-1'',
        meetingType = None, guestName = ''Cy'', guestEmail = Some ''cy@example.org'',
        googleEventId = None, meetLink = None, status = ''confirmed'', bookingNotes = None\<rparr>])"
proof -
  let ?svc = "(exampleServices (Some (exampleHost [window_9_to_10])))
        \<lparr>events_insert := (\<lambda>acc ev. Inl ExternalFailure)\<rparr>"
  let ?data = "exampleData 32400000 34200000"
  have 1: "HOST_BY_SLUG_WITH_TOKENS_QUERY ?svc (hostSlug ?data) = Some (exampleHost [window_9_to_10])"
    by (simp add: example_defs)
  have 2: "\<not> getHostBookingQuotaStatus_isExceeded ?svc (hostSlug ?data)"
    by (simp add: example_defs)
  have 3: "checkSlotAvailable ?svc [] (exampleHost [window_9_to_10]) (dataStartTime ?data)
             (dataEndTime ?data)"
    by (simp add: action_defs example_defs)
  have 4: "findDefaultAccount (exampleHost [window_9_to_10]) = Some exampleAccount"
    by (simp add: action_defs example_defs)
  have 5: "isl (getCalendarClient ?svc exampleAccount)
           \<or> (\<forall>ev. isl (events_insert ?svc exampleAccount ev))"
    by (simp add: example_defs)
  show ?thesis
    using createBooking_calendar_failure[OF 1 2 3 4 5]
    by (simp add: action_defs example_defs)
qed

subsection \<open>saveAvailability\<close>

lemma getOrCreateUser_returns:
  assumes "USER_ID_BY_CLERK_ID_QUERY users cid \<noteq> None \<or> currentUser idn \<noteq> None"
  shows "\<exists>docId users' u.
           getOrCreateUser idn svc users cid = (Inr docId, users')
         \<and> find (\<lambda>u. clerkId u = cid) users' = Some u \<and> userId u = docId"
proof (cases "find (\<lambda>u. clerkId u = cid) users")
  case (Some u)
  then show ?thesis
    by (simp add: getOrCreateUser_def USER_ID_BY_CLERK_ID_QUERY_def)
next
  case None
  with assms obtain cu where cu: "currentUser idn = Some cu"
    by (auto simp: USER_ID_BY_CLERK_ID_QUERY_def)
  from None have "\<forall>u \<in> set users. clerkId u \<noteq> cid" by (simp add: find_None_iff)
  then have "find (\<lambda>u. clerkId u = cid) (users @ [v]) = (if clerkId v = cid then Some v else None)" for v
    by (induction users) auto
  with None cu show ?thesis
    by (simp add: getOrCreateUser_def USER_ID_BY_CLERK_ID_QUERY_def Let_def)
qed

lemma find_patchAvailability:
  assumes "find (\<lambda>u. clerkId u = cid) users = Some u" and "userId u = docId"
  shows "find (\<lambda>u. clerkId u = cid) (patchAvailability users docId blocks)
         = Some (u\<lparr>availability := Some blocks\<rparr>)"
  using assms by (induction users) (auto simp: patchAvailability_def)

lemma sanityBlocks_maps:
  "map startDateTime (map (\<lambda>(i, block). \<lparr>key = f i, startDateTime = blockStart block,
        endDateTime = blockEnd block\<rparr>) (enumerate n blocks)) = map blockStart blocks"
  "map endDateTime (map (\<lambda>(i, block). \<lparr>key = f i, startDateTime = blockStart block,
        endDateTime = blockEnd block\<rparr>) (enumerate n blocks)) = map blockEnd blocks"
  by (induction blocks arbitrary: n) simp_all

text \<open>
  C9. For an authenticated user (\<open>auth()\<close> gives a user id, and the user document exists
  or the Clerk profile can be read to create it), \<open>saveAvailability\<close> returns as many
  blocks as it was given, with the same start and end instants in the same order, and
  the user's document then holds exactly these blocks as its availability: what was
  stored before is gone.
\<close>

theorem saveAvailability_replaces:
  assumes "truthy (auth_userId idn)"
    and "USER_ID_BY_CLERK_ID_QUERY users (orEmpty (auth_userId idn)) \<noteq> None
         \<or> currentUser idn \<noteq> None"
  shows "\<exists>saved users' u stored.
           saveAvailability idn svc users blocks = (Inr saved, users')
         \<and> length saved = length blocks
         \<and> map savedStart saved = map blockStart blocks
         \<and> map savedEnd saved = map blockEnd blocks
         \<and> find (\<lambda>u. clerkId u = orEmpty (auth_userId idn)) users' = Some u
         \<and> availability u = Some stored
         \<and> length stored = length blocks
         \<and> map startDateTime stored = map blockStart blocks
         \<and> map endDateTime stored = map blockEnd blocks
         \<and> map key stored = map savedId saved"
proof -
  let ?cid = "orEmpty (auth_userId idn)"
  let ?stored = "map (\<lambda>(i, block). \<lparr>key = randomUUID svc i, startDateTime = blockStart block,
        endDateTime = blockEnd block\<rparr>) (enumerate 0 blocks)"
  let ?saved = "map (\<lambda>block. \<lparr>savedId = key block, savedStart = startDateTime block,
                               savedEnd = endDateTime block\<rparr>) ?stored"
  from getOrCreateUser_returns[OF assms(2)] obtain docId users1 u where
    g: "getOrCreateUser idn svc users ?cid = (Inr docId, users1)"
    and f: "find (\<lambda>u. clerkId u = ?cid) users1 = Some u" and i: "userId u = docId"
    by blast
  have r: "saveAvailability idn svc users blocks
             = (Inr ?saved, patchAvailability users1 docId ?stored)"
    using assms(1) g by (simp add: saveAvailability_def Let_def)
  have f': "find (\<lambda>u. clerkId u = ?cid) (patchAvailability users1 docId ?stored)
             = Some (u\<lparr>availability := Some ?stored\<rparr>)"
    using f i by (rule find_patchAvailability)
  have s1: "map savedStart ?saved = map blockStart blocks"
    using sanityBlocks_maps(1)[of "randomUUID svc" 0 blocks] by (simp add: comp_def)
  have s2: "map savedEnd ?saved = map blockEnd blocks"
    using sanityBlocks_maps(2)[of "randomUUID svc" 0 blocks] by (simp add: comp_def)
  have s3: "map key ?stored = map savedId ?saved" by (simp add: comp_def)
  have "saveAvailability idn svc users blocks = (Inr ?saved, patchAvailability users1 docId ?stored)
         \<and> length ?saved = length blocks
         \<and> map savedStart ?saved = map blockStart blocks
         \<and> map savedEnd ?saved = map blockEnd blocks
         \<and> find (\<lambda>u. clerkId u = ?cid) (patchAvailability users1 docId ?stored)
             = Some (u\<lparr>availability := Some ?stored\<rparr>)
         \<and> availability (u\<lparr>availability := Some ?stored\<rparr>) = Some ?stored
         \<and> length ?stored = length blocks
         \<and> map startDateTime ?stored = map blockStart blocks
         \<and> map endDateTime ?stored = map blockEnd blocks
         \<and> map key ?stored = map savedId ?saved"
    using r f' s1 s2 s3 sanityBlocks_maps[of "randomUUID svc" 0 blocks] by simp
  then show ?thesis by blast
qed

text \<open>The round trip of the spec: the user has the block 09:00 to 10:00 stored and saves
  the one block 14:00 to 15:00.\<close>

theorem saveAvailability_replaces_witness:
  "saveAvailability \<lparr>auth_userId = Some ''clerk-1'', currentUser = None\<rparr>
     (exampleServices None) [exampleHost [window_9_to_10]]
     [\<lparr>blockId = ''new'', blockStart = 50400000, blockEnd = 54000000\<rparr>]
   = (Inr [\<lparr>savedId = ''key-'', savedStart = 50400000, savedEnd = 54000000\<rparr>],
      [exampleHost [\<lparr>key = ''key-'', startDateTime = 50400000, endDateTime = 54000000\<rparr>]])"
proof -
  let ?idn = "\<lparr>auth_userId = Some ''clerk-1'', currentUser = None\<rparr>"
  have 1: "truthy (auth_userId ?idn)" by (simp add: truthy_def)
  have 2: "USER_ID_BY_CLERK_ID_QUERY [exampleHost [window_9_to_10]] (orEmpty (auth_userId ?idn)) \<noteq> None
         \<or> currentUser ?idn \<noteq> None"
    by (simp add: USER_ID_BY_CLERK_ID_QUERY_def orEmpty_def example_defs)
  from saveAvailability_replaces[OF 1 2, of "exampleServices None"
      "[\<lparr>blockId = ''new'', blockStart = 50400000, blockEnd = 54000000\<rparr>]"]
  obtain saved users' where
    "saveAvailability ?idn (exampleServices None) [exampleHost [window_9_to_10]]
       [\<lparr>blockId = ''new'', blockStart = 50400000, blockEnd = 54000000\<rparr>] = (Inr saved, users')"
    by blast
  then show ?thesis
    by (simp add: saveAvailability_def getOrCreateUser_def USER_ID_BY_CLERK_ID_QUERY_def
          patchAvailability_def truthy_def orEmpty_def example_defs)
qed

end
